theory Spec2Isabelle
  imports Complex_Main "HOL-Library.AList" "HOL-Library.Sublist"
begin

section \<open>Python values, exceptions and data frames\<close>

text \<open>
  The scraper of \<^verbatim>\<open>src/ufc/scraper/scrape_odds_alt.py\<close> moves Python values around:
  strings, the objects that \<^verbatim>\<open>response.json()\<close> returns, floats and one
  \<^verbatim>\<open>datetime\<close>. A float is modelled by the number it denotes. No arithmetic is done
  on floats; they are only produced by \<^verbatim>\<open>float(text)\<close> or by a literal, stored, and
  compared with \<^verbatim>\<open>1.0\<close>. The conversion from a decimal text to the nearest binary64
  value belongs to the interpreter, so every function that converts takes it as the
  parameter \<open>fl\<close>; the literal \<^verbatim>\<open>1.0\<close> is exactly \<open>Finite 1\<close>.
\<close>

datatype pyfloat = Finite rat | PosInf | NegInf | NaN

datatype pyval =
    PNone
  | PBool bool
  | PInt int
  | PFloat pyfloat
  | PStr string
  | PList "pyval list"
  | PDict "(string \<times> pyval) list"
  | PTime nat

datatype exn = AttributeError | TypeError | KeyError | IndexError | OtherError string

text \<open>
  A \<^verbatim>\<open>str\<close> is a sequence of Unicode code points. It is held as its UTF-8 encoding
  (a surrogate is encoded like any other code point), so that the literals of the source
  are literals here. Equality, concatenation,
  \<^verbatim>\<open>startswith\<close> and \<^verbatim>\<open>in\<close> give on the encodings what they give on the texts.
  Whatever counts or classifies characters (\<^verbatim>\<open>len\<close>, slices, subscripts, iteration,
  \<^verbatim>\<open>\d\<close>) works on \<open>chars\<close>, the encoded characters of a text in order: a byte
  \<^verbatim>\<open>10xxxxxx\<close> continues the character before it. \<open>code_point\<close> decodes one
  encoded character.
\<close>

definition continuation :: "char \<Rightarrow> bool" where
  "continuation c = (128 \<le> (of_char c :: nat) \<and> (of_char c :: nat) < 192)"

function chars :: "string \<Rightarrow> string list" where
  "chars [] = []"
| "chars (c # cs) = (c # takeWhile continuation cs) # chars (dropWhile continuation cs)"
  by pat_completeness auto

termination chars
  by (relation "measure length") (simp_all add: length_dropWhile_le le_imp_less_Suc)

definition lead_bits :: "char \<Rightarrow> nat" where
  "lead_bits c =
     (let n = of_char c
      in if n < 128 then n else if n < 224 then n - 192 else if n < 240 then n - 224 else n - 240)"

definition code_point :: "string \<Rightarrow> nat" where
  "code_point ch =
     (case ch of
        [] \<Rightarrow> 0
      | c # cs \<Rightarrow> fold (\<lambda>b n. n * 64 + (of_char b - 128)) cs (lead_bits c))"

text \<open>Sequencing of computations that may raise: the first exception wins.\<close>

definition bind_exn :: "exn + 'a \<Rightarrow> ('a \<Rightarrow> exn + 'b) \<Rightarrow> exn + 'b" where
  "bind_exn m f = (case m of Inl e \<Rightarrow> Inl e | Inr x \<Rightarrow> f x)"

text \<open>Truthiness, as \<^verbatim>\<open>if x:\<close> tests it.\<close>

fun truthy :: "pyval \<Rightarrow> bool" where
  "truthy PNone = False"
| "truthy (PBool b) = b"
| "truthy (PInt n) = (n \<noteq> 0)"
| "truthy (PFloat f) = (f \<noteq> Finite 0)"
| "truthy (PStr s) = (s \<noteq> [])"
| "truthy (PList xs) = (xs \<noteq> [])"
| "truthy (PDict kvs) = (kvs \<noteq> [])"
| "truthy (PTime t) = True"

text \<open>\<^verbatim>\<open>x.get(key, default)\<close>: only a dict has the method.\<close>

fun py_get :: "pyval \<Rightarrow> string \<Rightarrow> pyval \<Rightarrow> exn + pyval" where
  "py_get (PDict kvs) k d = Inr (case map_of kvs k of None \<Rightarrow> d | Some v \<Rightarrow> v)"
| "py_get v k d = Inl AttributeError"

text \<open>\<^verbatim>\<open>x[key]\<close> for a string key and \<^verbatim>\<open>x[i]\<close> for a position.\<close>

fun py_getitem :: "pyval \<Rightarrow> string \<Rightarrow> exn + pyval" where
  "py_getitem (PDict kvs) k = (case map_of kvs k of None \<Rightarrow> Inl KeyError | Some v \<Rightarrow> Inr v)"
| "py_getitem v k = Inl TypeError"

fun py_index :: "pyval \<Rightarrow> nat \<Rightarrow> exn + pyval" where
  "py_index (PList xs) i = (if i < length xs then Inr (xs ! i) else Inl IndexError)"
| "py_index (PStr s) i = (if i < length (chars s) then Inr (PStr (chars s ! i)) else Inl IndexError)"
| "py_index (PDict kvs) i = Inl KeyError"
| "py_index v i = Inl TypeError"

text \<open>\<^verbatim>\<open>for x in v\<close>, \<^verbatim>\<open>len(v)\<close> and \<^verbatim>\<open>v[:n]\<close>.\<close>

fun py_iter :: "pyval \<Rightarrow> exn + pyval list" where
  "py_iter (PList xs) = Inr xs"
| "py_iter (PStr s) = Inr (map PStr (chars s))"
| "py_iter (PDict kvs) = Inr (map PStr (remdups (map fst kvs)))"
| "py_iter v = Inl TypeError"

fun py_len :: "pyval \<Rightarrow> exn + nat" where
  "py_len (PList xs) = Inr (length xs)"
| "py_len (PStr s) = Inr (length (chars s))"
| "py_len (PDict kvs) = Inr (length (remdups (map fst kvs)))"
| "py_len v = Inl TypeError"

fun py_slice_to :: "nat \<Rightarrow> pyval \<Rightarrow> exn + pyval" where
  "py_slice_to n (PStr s) = Inr (PStr (concat (take n (chars s))))"
| "py_slice_to n (PList xs) = Inr (PList (take n xs))"
| "py_slice_to n v = Inl TypeError"

text \<open>
  A pandas \<^verbatim>\<open>DataFrame\<close> is its ordered column index and its rows; a row maps column
  names to cells (a cell that is absent reads as missing). Building a frame from a
  list of dicts takes the keys in order of first appearance; \<^verbatim>\<open>df[c] = v\<close> overwrites
  the column \<open>c\<close> or appends it as the last column; \<^verbatim>\<open>pd.concat\<close> keeps the rows in
  order and takes the union of the columns in order of first appearance.
\<close>

type_synonym row = "(string \<times> pyval) list"

record frame =
  columns :: "string list"
  rows :: "row list"

definition ordered_union :: "string list \<Rightarrow> string list \<Rightarrow> string list" where
  "ordered_union cs ds = fold (\<lambda>d acc. if d \<in> set acc then acc else acc @ [d]) ds cs"

definition DataFrame :: "row list \<Rightarrow> frame" where
  "DataFrame dicts =
     \<lparr>columns = fold (\<lambda>d cs. ordered_union cs (map fst d)) dicts [], rows = dicts\<rparr>"

definition empty_frame :: "string list \<Rightarrow> frame" where
  "empty_frame cs = \<lparr>columns = cs, rows = []\<rparr>"

definition set_column :: "string \<Rightarrow> pyval \<Rightarrow> frame \<Rightarrow> frame" where
  "set_column c v df =
     \<lparr>columns = ordered_union (columns df) [c], rows = map (AList.update c v) (rows df)\<rparr>"

definition pd_concat :: "frame list \<Rightarrow> frame" where
  "pd_concat dfs =
     \<lparr>columns = fold (\<lambda>df cs. ordered_union cs (columns df)) dfs [],
      rows = concat (map rows dfs)\<rparr>"

section \<open>The page-scrape adapter\<close>

text \<open>
  In a pattern on \<^verbatim>\<open>str\<close>, \<^verbatim>\<open>\d\<close> matches the characters of the Unicode category
  Nd. Within ASCII these are the ten digits \<^verbatim>\<open>0\<close> to \<^verbatim>\<open>9\<close>; which code points
  beyond ASCII the category holds depends on the Unicode database of the interpreter, so
  the category is the parameter \<open>nd\<close>, asked only about code points from 128 on.
\<close>

definition is_digit :: "(nat \<Rightarrow> bool) \<Rightarrow> string \<Rightarrow> bool" where
  "is_digit nd ch =
     (ch \<in> set (chars ''0123456789'') \<or> (128 \<le> code_point ch \<and> nd (code_point ch)))"

text \<open>
  \<^verbatim>\<open>re.match(r'^\d+\.\d+$', text)\<close>: digits, a dot, digits, and then the end of the
  text or a single final newline.
\<close>

definition decimal_pattern :: "(nat \<Rightarrow> bool) \<Rightarrow> string \<Rightarrow> bool" where
  "decimal_pattern nd text =
     (let cs = chars text;
          t = (if cs \<noteq> [] \<and> last cs = [CHR 0x0A] then butlast cs else cs);
          a = takeWhile (is_digit nd) t;
          r = drop (length a) t
      in a \<noteq> [] \<and> r \<noteq> [] \<and> hd r = ''.'' \<and> tl r \<noteq> [] \<and> list_all (is_digit nd) (tl r))"

text \<open>
  The loop over the cells of one row, lines 247 to 259. Both odds start at \<^verbatim>\<open>1.0\<close>;
  a cell that matches is converted, stored in \<^verbatim>\<open>fighter1_odds\<close> while that still equals
  \<^verbatim>\<open>1.0\<close>, else in \<^verbatim>\<open>fighter2_odds\<close> if that equals \<^verbatim>\<open>1.0\<close>, and then the loop breaks.
\<close>

fun scan_odds_cells :: "(nat \<Rightarrow> bool) \<Rightarrow> (string \<Rightarrow> pyfloat) \<Rightarrow> string list \<Rightarrow> pyfloat \<Rightarrow> pyfloat \<Rightarrow> pyfloat \<times> pyfloat" where
  "scan_odds_cells nd fl [] fighter1_odds fighter2_odds = (fighter1_odds, fighter2_odds)"
| "scan_odds_cells nd fl (text # cells) fighter1_odds fighter2_odds =
     (if decimal_pattern nd text then
        (let odds_val = fl text in
         if fighter1_odds = Finite 1 then scan_odds_cells nd fl cells odds_val fighter2_odds
         else if fighter2_odds = Finite 1 then (fighter1_odds, odds_val)
         else scan_odds_cells nd fl cells fighter1_odds fighter2_odds)
      else scan_odds_cells nd fl cells fighter1_odds fighter2_odds)"

text \<open>
  The parsed event page is what the queries of the adapter return on it: the rows found
  by \<^verbatim>\<open>find_all('tr', class_=...)\<close> and by \<^verbatim>\<open>find_all('div', class_=...)\<close>, and the text
  of the first \<^verbatim>\<open>h1\<close> if there is one. A row is the texts of its anchors to fighter
  paths and the texts of its \<^verbatim>\<open>td\<close> cells, or an exception raised while it is read.
\<close>

datatype fight_row = RowRaises exn | FightRow "string list" "string list"

record soup =
  tr_rows :: "fight_row list"
  div_rows :: "fight_row list"
  h1 :: "string option"

text \<open>The body of the inner \<^verbatim>\<open>try\<close>, lines 239 to 268: the dict appended for one row, if any.\<close>

definition extract_fight :: "(nat \<Rightarrow> bool) \<Rightarrow> (string \<Rightarrow> pyfloat) \<Rightarrow> string option \<Rightarrow> fight_row \<Rightarrow> exn + row option" where
  "extract_fight nd fl title r =
     (case r of
        RowRaises e \<Rightarrow> Inl e
      | FightRow fighter_links odds_cells \<Rightarrow>
          if length fighter_links \<ge> 2 then
            (let fighter1 = fighter_links ! 0;
                 fighter2 = fighter_links ! 1;
                 (fighter1_odds, fighter2_odds) = scan_odds_cells nd fl odds_cells (Finite 1) (Finite 1)
             in Inr (Some
                  [(''event'', PStr (case title of Some t \<Rightarrow> t | None \<Rightarrow> ''UFC Event'')),
                   (''fighter1'', PStr fighter1),
                   (''fighter2'', PStr fighter2),
                   (''fighter1_odds'', PFloat fighter1_odds),
                   (''fighter2_odds'', PFloat fighter2_odds),
                   (''result'', PStr [])]))
          else Inr None)"

text \<open>The loop over the rows: a row that raises is skipped (\<^verbatim>\<open>except: continue\<close>).\<close>

fun collect_fights :: "(nat \<Rightarrow> bool) \<Rightarrow> (string \<Rightarrow> pyfloat) \<Rightarrow> string option \<Rightarrow> fight_row list \<Rightarrow> row list \<Rightarrow> row list" where
  "collect_fights nd fl title [] fights = fights"
| "collect_fights nd fl title (r # rs) fights =
     (case extract_fight nd fl title r of
        Inl e \<Rightarrow> collect_fights nd fl title rs fights
      | Inr None \<Rightarrow> collect_fights nd fl title rs fights
      | Inr (Some fight) \<Rightarrow> collect_fights nd fl title rs (fights @ [fight]))"

text \<open>\<^verbatim>\<open>_scrape_oddsshark_event\<close>: the four sample fights.\<close>

definition sample_fight :: "(string \<Rightarrow> pyfloat) \<Rightarrow> string \<Rightarrow> string \<Rightarrow> string \<Rightarrow> string \<Rightarrow> string \<Rightarrow> row" where
  "sample_fight fl ev a b oa ob =
     [(''event'', PStr ev), (''fighter1'', PStr a), (''fighter2'', PStr b),
      (''fighter1_odds'', PFloat (fl oa)), (''fighter2_odds'', PFloat (fl ob)),
      (''result'', PStr [])]"

definition scrape_oddsshark_event :: "(string \<Rightarrow> pyfloat) \<Rightarrow> frame" where
  "scrape_oddsshark_event fl = DataFrame
     [sample_fight fl ''UFC 304: Edwards vs Muhammad 2'' ''Leon Edwards'' ''Belal Muhammad'' ''1.85'' ''1.95'',
      sample_fight fl ''UFC 304: Edwards vs Muhammad 2'' ''Tom Aspinall'' ''Curtis Blaydes'' ''1.45'' ''2.75'',
      sample_fight fl ''UFC Fight Night: Sandhagen vs Nurmagomedov'' ''Cory Sandhagen'' ''Umar Nurmagomedov'' ''2.10'' ''1.75'',
      sample_fight fl ''UFC Fight Night: Sandhagen vs Nurmagomedov'' ''Shara Magomedov'' ''Michal Oleksiejczuk'' ''1.65'' ''2.25'']"

text \<open>
  Everything the scraper reads from outside: the parsed listing page of OddsShark (for
  each CSS selector the stripped texts of the elements it selects) or the exception of
  the fetch; the clock, formatted \<^verbatim>\<open>'%d %b %y'\<close>, at the moment the \<open>k\<close>-th event is
  built; the decoded answer of The Odds API for a key; the parsed page of the \<open>i\<close>-th
  event at a locator; the interpreter's \<^verbatim>\<open>float\<close>, \<^verbatim>\<open>str\<close> and \<^verbatim>\<open>str.lower\<close> and
  the category Nd of its Unicode database; and whether \<^verbatim>\<open>utils.sleep_randomly()\<close>
  raises after the \<open>i\<close>-th event.
\<close>

record world =
  fetch_oddsshark :: "exn + (string \<Rightarrow> string list)"
  clock_date :: "nat \<Rightarrow> string"
  fetch_odds_api :: "string \<Rightarrow> exn + pyval"
  fetch_page :: "nat \<Rightarrow> string \<Rightarrow> exn + soup"
  py_float :: "string \<Rightarrow> pyfloat"
  py_str :: "pyval \<Rightarrow> string"
  py_lower :: "string \<Rightarrow> string"
  unicode_nd :: "nat \<Rightarrow> bool"
  sleep_randomly :: "nat \<Rightarrow> exn option"

text \<open>
  \<^verbatim>\<open>_scrape_event_odds_page\<close>, lines 219 to 279. The outer \<^verbatim>\<open>except\<close> turns every
  exception of the body into the result \<^verbatim>\<open>None\<close>.
\<close>

definition scrape_event_odds_page :: "world \<Rightarrow> nat \<Rightarrow> string \<Rightarrow> exn + frame option" where
  "scrape_event_odds_page w i url =
     (case (if prefix ''oddsshark_'' url then Inr (Some (scrape_oddsshark_event (py_float w)))
            else bind_exn (fetch_page w i url) (\<lambda>soup.
              let fight_rows = (if tr_rows soup \<noteq> [] then tr_rows soup else div_rows soup);
                  fights = collect_fights (unicode_nd w) (py_float w) (h1 soup) fight_rows []
              in if fights \<noteq> [] then Inr (Some (DataFrame fights)) else Inr None))
      of Inl e \<Rightarrow> Inr None
       | Inr r \<Rightarrow> Inr r)"

section \<open>Event discovery\<close>

record event =
  Date :: string
  Event :: string
  url :: string

fun show_nat :: "nat \<Rightarrow> string" where
  "show_nat n =
     (if n < 10 then [''0123456789'' ! n] else show_nat (n div 10) @ [''0123456789'' ! (n mod 10)])"

text \<open>
  \<^verbatim>\<open>re.search(r'(\d{1,2}[/-]\d{1,2}[/-]\d{2,4})', text)\<close> on the characters of the text:
  the leftmost match, each group of digits as long as the rest of the pattern allows.
  \<open>date_match_at\<close> lists the lengths of the matches that start at the head, the one
  that the matcher finds first.
\<close>

definition digits_at :: "(nat \<Rightarrow> bool) \<Rightarrow> nat \<Rightarrow> string list \<Rightarrow> bool" where
  "digits_at nd n s = (n \<le> length s \<and> list_all (is_digit nd) (take n s))"

definition sep_at :: "string list \<Rightarrow> bool" where
  "sep_at s = (s \<noteq> [] \<and> (hd s = ''/'' \<or> hd s = ''-''))"

definition date_match_at :: "(nat \<Rightarrow> bool) \<Rightarrow> string list \<Rightarrow> nat list" where
  "date_match_at nd s =
     [n1 + 1 + n2 + 1 + n3.
        n1 \<leftarrow> [2, 1], digits_at nd n1 s \<and> sep_at (drop n1 s),
        n2 \<leftarrow> [2, 1], digits_at nd n2 (drop (n1 + 1) s) \<and> sep_at (drop (n1 + 1 + n2) s),
        n3 \<leftarrow> [4, 3, 2], digits_at nd n3 (drop (n1 + 1 + n2 + 1) s)]"

fun date_search_chars :: "(nat \<Rightarrow> bool) \<Rightarrow> string list \<Rightarrow> string option" where
  "date_search_chars nd [] = None"
| "date_search_chars nd (c # cs) =
     (case date_match_at nd (c # cs) of
        n # ns \<Rightarrow> Some (concat (take n (c # cs)))
      | [] \<Rightarrow> date_search_chars nd cs)"

definition date_search :: "(nat \<Rightarrow> bool) \<Rightarrow> string \<Rightarrow> string option" where
  "date_search nd text = date_search_chars nd (chars text)"

text \<open>The two loops of \<^verbatim>\<open>_get_events_from_oddsshark\<close>, lines 98 to 117.\<close>

definition selectors :: "string list" where
  "selectors =
     [''div[class*=\"event\"]'', ''div[class*=\"fight\"]'', ''div[class*=\"match\"]'',
      ''tr[class*=\"event\"]'', ''tr[class*=\"fight\"]'', ''.event-row'', ''.fight-row'']"

fun scan_elements :: "world \<Rightarrow> string list \<Rightarrow> event list \<Rightarrow> event list" where
  "scan_elements w [] events = events"
| "scan_elements w (text # elements) events =
     (if text \<noteq> [] \<and> sublist ''ufc'' (py_lower w text) \<and> length (chars text) > 5 then
        (let event_date = (case date_search (unicode_nd w) text of
                             Some d \<Rightarrow> d
                           | None \<Rightarrow> clock_date w (length events));
             events' = events @
               [\<lparr>Date = event_date, Event = concat (take 100 (chars text)),
                 url = ''oddsshark_'' @ show_nat (length events)\<rparr>]
         in if length events' \<ge> 10 then events' else scan_elements w elements events')
      else scan_elements w elements events)"

fun scan_selectors :: "world \<Rightarrow> (string \<Rightarrow> string list) \<Rightarrow> string list \<Rightarrow> event list \<Rightarrow> event list" where
  "scan_selectors w select [] events = events"
| "scan_selectors w select (selector # rest) events =
     (let events' = scan_elements w (take 5 (select selector)) events
      in if length events' \<ge> 10 then events' else scan_selectors w select rest events')"

text \<open>
  \<^verbatim>\<open>_get_events_from_oddsshark\<close>: an exception of the fetch or of the parse is caught
  and the result is the empty list.
\<close>

definition get_events_from_oddsshark :: "world \<Rightarrow> exn + event list" where
  "get_events_from_oddsshark w =
     (case bind_exn (fetch_oddsshark w) (\<lambda>select. Inr (scan_selectors w select selectors []))
      of Inl e \<Rightarrow> Inr []
       | Inr events \<Rightarrow> Inr events)"

text \<open>The scraper object, its constructor, and \<^verbatim>\<open>get_individual_event_urls\<close>.\<close>

record scraper =
  test :: bool
  odds_api_key :: "string option"
  event_links :: "event list option"
  event_odds :: "frame option"
  curr_time :: nat

definition OddsScraperAlt :: "nat \<Rightarrow> bool \<Rightarrow> string option \<Rightarrow> scraper" where
  "OddsScraperAlt now t k =
     \<lparr>test = t, odds_api_key = k, event_links = None, event_odds = None, curr_time = now\<rparr>"

definition sample_events :: "event list" where
  "sample_events =
     [\<lparr>Date = ''19 Jul 25'', Event = ''UFC 304: Edwards vs Muhammad 2'', url = ''oddsshark_sample_1''\<rparr>,
      \<lparr>Date = ''27 Jul 25'', Event = ''UFC Fight Night: Sandhagen vs Nurmagomedov'', url = ''oddsshark_sample_2''\<rparr>]"

definition get_individual_event_urls :: "world \<Rightarrow> scraper \<Rightarrow> exn + scraper" where
  "get_individual_event_urls w s =
     (let events = (case get_events_from_oddsshark w of Inl e \<Rightarrow> [] | Inr evs \<Rightarrow> evs);
          events = (if events = [] then sample_events else events)
      in Inr (s\<lparr>event_links := Some events\<rparr>))"

section \<open>The live API adapter\<close>

text \<open>
  The value put into an f-string: a string is inserted as it is, any other value through
  the interpreter's \<^verbatim>\<open>str\<close>.
\<close>

definition format_val :: "world \<Rightarrow> pyval \<Rightarrow> string" where
  "format_val w v = (case v of PStr s \<Rightarrow> s | _ \<Rightarrow> py_str w v)"

text \<open>
  The dict built at lines 200 to 209, its values evaluated in the order written. Each
  \<^verbatim>\<open>.get\<close> and each subscript can raise on a value of another shape.
\<close>

definition api_fight :: "world \<Rightarrow> pyval \<Rightarrow> pyval \<Rightarrow> pyval \<Rightarrow> pyval \<Rightarrow> exn + row" where
  "api_fight w event event_name commence_time outcomes =
     bind_exn (py_get event ''id'' (PStr [])) (\<lambda>ident.
     bind_exn (if truthy commence_time then py_slice_to 10 commence_time else Inr (PStr [])) (\<lambda>date.
     bind_exn (bind_exn (py_index outcomes 0) (\<lambda>oc. py_get oc ''name'' (PStr []))) (\<lambda>fighter1.
     bind_exn (bind_exn (py_index outcomes 1) (\<lambda>oc. py_get oc ''name'' (PStr []))) (\<lambda>fighter2.
     bind_exn (bind_exn (py_index outcomes 0) (\<lambda>oc. py_get oc ''price'' (PFloat (Finite 1)))) (\<lambda>fighter1_odds.
     bind_exn (bind_exn (py_index outcomes 1) (\<lambda>oc. py_get oc ''price'' (PFloat (Finite 1)))) (\<lambda>fighter2_odds.
     Inr [(''link'', PStr (''odds_api_'' @ format_val w ident)),
          (''date'', date),
          (''event'', event_name),
          (''fighter1'', fighter1),
          (''fighter2'', fighter2),
          (''fighter1_odds'', fighter1_odds),
          (''fighter2_odds'', fighter2_odds),
          (''result'', PStr [])]))))))"

text \<open>The loop over the markets of the first bookmaker, lines 196 to 209.\<close>

fun api_markets :: "world \<Rightarrow> pyval \<Rightarrow> pyval \<Rightarrow> pyval \<Rightarrow> pyval list \<Rightarrow> row list \<Rightarrow> exn + row list" where
  "api_markets w event event_name commence_time [] results = Inr results"
| "api_markets w event event_name commence_time (market # markets) results =
     bind_exn (py_get market ''key'' PNone) (\<lambda>key.
       if key = PStr ''h2h'' then
         bind_exn (bind_exn (py_get market ''outcomes'' (PList [])) py_len) (\<lambda>n.
           if n \<ge> 2 then
             bind_exn (py_getitem market ''outcomes'') (\<lambda>outcomes.
             bind_exn (api_fight w event event_name commence_time outcomes) (\<lambda>fight.
               api_markets w event event_name commence_time markets (results @ [fight])))
           else api_markets w event event_name commence_time markets results)
       else api_markets w event event_name commence_time markets results)"

text \<open>The loop over the events of the answer, lines 187 to 209.\<close>

fun api_events :: "world \<Rightarrow> pyval list \<Rightarrow> row list \<Rightarrow> exn + row list" where
  "api_events w [] results = Inr results"
| "api_events w (event # events) results =
     bind_exn (py_get event ''sport_title'' (PStr ''UFC Event'')) (\<lambda>event_name.
     bind_exn (py_get event ''commence_time'' (PStr [])) (\<lambda>commence_time.
     bind_exn (py_get event ''bookmakers'' PNone) (\<lambda>b.
       if truthy b then
         bind_exn (bind_exn (py_getitem event ''bookmakers'') (\<lambda>bs. py_index bs 0)) (\<lambda>bookmaker.
         bind_exn (bind_exn (py_get bookmaker ''markets'' (PList [])) py_iter) (\<lambda>markets.
         bind_exn (api_markets w event event_name commence_time markets results) (\<lambda>results'.
           api_events w events results')))
       else api_events w events results)))"

text \<open>
  \<^verbatim>\<open>_scrape_from_odds_api\<close>, lines 171 to 217: any exception of the request, of the
  decoding or of the loops is caught, and the result is then \<^verbatim>\<open>None\<close>.
\<close>

definition scrape_from_odds_api :: "world \<Rightarrow> string \<Rightarrow> exn + frame option" where
  "scrape_from_odds_api w api_key =
     (case bind_exn (fetch_odds_api w api_key) (\<lambda>data.
           bind_exn (py_iter data) (\<lambda>events. api_events w events []))
      of Inl e \<Rightarrow> Inr None
       | Inr results \<Rightarrow> if results \<noteq> [] then Inr (Some (DataFrame results)) else Inr None)"

section \<open>The aggregator and the writer\<close>

text \<open>
  The state of the loop of \<^verbatim>\<open>scrape_all_event_odds\<close>: the staged frames, and the calls
  of the page-scrape adapter made so far (position of the event and locator).
\<close>

record loop_state =
  scraped_results :: "frame list"
  page_calls :: "(nat \<times> string) list"

text \<open>
  One pass through the body of the loop, lines 144 to 157. An exception of the adapter
  or of the pause is caught and the loop goes on; what was staged before stays staged.
\<close>

definition scrape_event :: "world \<Rightarrow> nat \<Rightarrow> event \<Rightarrow> loop_state \<Rightarrow> loop_state" where
  "scrape_event w i ev st =
     (let st1 = st\<lparr>page_calls := page_calls st @ [(i, url ev)]\<rparr> in
      case scrape_event_odds_page w i (url ev) of
        Inl e \<Rightarrow> st1
      | Inr results \<Rightarrow>
          (let st2 = (case results of
                        None \<Rightarrow> st1
                      | Some df \<Rightarrow>
                          if length (rows df) > 0 then
                            st1\<lparr>scraped_results := scraped_results st1 @
                              [set_column ''date'' (PStr (Date ev))
                                 (set_column ''link'' (PStr (url ev)) df)]\<rparr>
                          else st1)
           in case sleep_randomly w i of Some e \<Rightarrow> st2 | None \<Rightarrow> st2))"

fun scrape_events :: "world \<Rightarrow> bool \<Rightarrow> (nat \<times> event) list \<Rightarrow> loop_state \<Rightarrow> loop_state" where
  "scrape_events w t [] st = st"
| "scrape_events w t ((i, ev) # rest) st =
     (if t \<and> i \<ge> 2 then st else scrape_events w t rest (scrape_event w i ev st))"

definition output_columns :: "string list" where
  "output_columns =
     [''link'', ''date'', ''event'', ''fighter1'', ''fighter2'',
      ''fighter1_odds'', ''fighter2_odds'', ''result'', ''timestamp'']"

text \<open>
  \<^verbatim>\<open>scrape_all_event_odds\<close>, lines 125 to 169. The result is the scraper after the
  call, together with the calls of the page-scrape adapter that were made.
\<close>

definition scrape_all_event_odds :: "world \<Rightarrow> scraper \<Rightarrow> exn + scraper \<times> (nat \<times> string) list" where
  "scrape_all_event_odds w s =
     (case event_links s of
        None \<Rightarrow> Inr (s, [])
      | Some evs \<Rightarrow>
          if length evs = 0 then Inr (s, [])
          else
            bind_exn (case odds_api_key s of
                        None \<Rightarrow> Inr []
                      | Some k \<Rightarrow>
                          if k \<noteq> [] then
                            bind_exn (scrape_from_odds_api w k) (\<lambda>api_results.
                              Inr (case api_results of None \<Rightarrow> [] | Some df \<Rightarrow> [df]))
                          else Inr []) (\<lambda>staged.
            let st = scrape_events w (test s) (enumerate 0 evs)
                       \<lparr>scraped_results = staged, page_calls = []\<rparr>
            in if scraped_results st \<noteq> [] then
                 Inr (s\<lparr>event_odds := Some (set_column ''timestamp'' (PTime (curr_time s))
                                              (pd_concat (scraped_results st)))\<rparr>,
                      page_calls st)
               else Inr (s\<lparr>event_odds := Some (empty_frame output_columns)\<rparr>, page_calls st)))"

text \<open>
  \<^verbatim>\<open>write_data\<close>, lines 321 to 329. The file system is the contents of its files and
  which paths can be opened for writing; \<open>to_csv\<close> is the rendering of pandas.
\<close>

record filesystem =
  files :: "string \<rightharpoonup> string"
  writable :: "string \<Rightarrow> bool"

definition write_data :: "(frame \<Rightarrow> string) \<Rightarrow> scraper \<Rightarrow> filesystem \<Rightarrow> exn + filesystem" where
  "write_data to_csv s fs =
     (case event_odds s of
        Some df \<Rightarrow>
          (let output_path = ''./data/odds_raw.csv'' in
           if writable fs output_path
           then Inr (fs\<lparr>files := (files fs)(output_path \<mapsto> to_csv df)\<rparr>)
           else Inl (OtherError ''OSError''))
      | None \<Rightarrow> Inr fs)"

section \<open>Vocabulary of the properties\<close>

text \<open>
  The keys of the dicts that the two adapters build, in the order written in the source.
\<close>

definition api_columns :: "string list" where
  "api_columns = [''link'', ''date'', ''event'', ''fighter1'', ''fighter2'',
      ''fighter1_odds'', ''fighter2_odds'', ''result'']"

definition page_columns :: "string list" where
  "page_columns = [''event'', ''fighter1'', ''fighter2'',
      ''fighter1_odds'', ''fighter2_odds'', ''result'']"

text \<open>
  The events that the loop of the aggregator reaches, what each of them stages, what
  the live API stages, and all staged frames in the order of staging.
\<close>

definition processed :: "bool \<Rightarrow> (nat \<times> event) list \<Rightarrow> (nat \<times> event) list" where
  "processed t ies = (if t then takeWhile (\<lambda>ie. fst ie < 2) ies else ies)"

definition page_frame :: "world \<Rightarrow> nat \<times> event \<Rightarrow> frame list" where
  "page_frame w ie =
     (case scrape_event_odds_page w (fst ie) (url (snd ie)) of
        Inr (Some df) \<Rightarrow>
          if rows df \<noteq> [] then
            [set_column ''date'' (PStr (Date (snd ie))) (set_column ''link'' (PStr (url (snd ie))) df)]
          else []
      | _ \<Rightarrow> [])"

definition api_frame :: "world \<Rightarrow> scraper \<Rightarrow> frame list" where
  "api_frame w s =
     (case odds_api_key s of
        None \<Rightarrow> []
      | Some k \<Rightarrow>
          if k \<noteq> [] then (case scrape_from_odds_api w k of Inr (Some df) \<Rightarrow> [df] | _ \<Rightarrow> [])
          else [])"

definition staged_frames :: "world \<Rightarrow> scraper \<Rightarrow> event list \<Rightarrow> frame list" where
  "staged_frames w s evs =
     api_frame w s @ concat (map (page_frame w) (processed (test s) (enumerate 0 evs)))"

text \<open>The rows that the API and one event contribute, before the time stamp.\<close>

definition api_rows :: "world \<Rightarrow> scraper \<Rightarrow> row list" where
  "api_rows w s = concat (map rows (api_frame w s))"

definition page_rows :: "world \<Rightarrow> nat \<times> event \<Rightarrow> row list" where
  "page_rows w ie =
     (case scrape_event_odds_page w (fst ie) (url (snd ie)) of
        Inr (Some df) \<Rightarrow>
          map (\<lambda>r. AList.update ''date'' (PStr (Date (snd ie)))
                     (AList.update ''link'' (PStr (url (snd ie))) r)) (rows df)
      | _ \<Rightarrow> [])"

text \<open>
  Concrete inputs. \<open>category_nd\<close> is the category Nd of Unicode 14.0, the database of
  CPython 3.11: sixty-six runs of ten digits, given by the code points of their zeros.
  \<open>exact_decimal\<close> reads a decimal text in ASCII digits as the number it writes; it
  agrees with \<^verbatim>\<open>float\<close> on the texts that binary64 holds exactly, such as
  \<^verbatim>\<open>1.0\<close>, \<^verbatim>\<open>2.5\<close> and \<^verbatim>\<open>3.0\<close>. \<open>ascii_lower\<close> is \<^verbatim>\<open>str.lower\<close> on texts in ASCII.
  In \<open>offline_world\<close> every request fails.
\<close>

definition nd_zeros :: "nat list" where
  "nd_zeros =
     [48, 1632, 1776, 1984, 2406, 2534, 2662, 2790, 2918, 3046, 3174, 3302, 3430, 3558,
      3664, 3792, 3872, 4160, 4240, 6112, 6160, 6470, 6608, 6784, 6800, 6992, 7088, 7232,
      7248, 42528, 43216, 43264, 43472, 43504, 43600, 44016, 65296, 66720, 68912, 69734,
      69872, 69942, 70096, 70384, 70736, 70864, 71248, 71360, 71472, 71904, 72016, 72784,
      73040, 73120, 92768, 92864, 93008, 120782, 120792, 120802, 120812, 120822, 123200,
      123632, 125264, 130032]"

definition category_nd :: "nat \<Rightarrow> bool" where
  "category_nd cp = list_ex (\<lambda>z. z \<le> cp \<and> cp < z + 10) nd_zeros"

definition ascii_digit :: "char \<Rightarrow> bool" where
  "ascii_digit c = (c \<in> set ''0123456789'')"

definition digits_val :: "string \<Rightarrow> nat" where
  "digits_val s = foldl (\<lambda>n c. 10 * n + (of_char c - 48)) 0 s"

definition exact_decimal :: "string \<Rightarrow> pyfloat" where
  "exact_decimal text =
     (let a = takeWhile ascii_digit text;
          b = takeWhile ascii_digit (drop (Suc (length a)) text)
      in Finite (of_nat (digits_val a) + of_nat (digits_val b) / 10 ^ length b))"

definition ascii_lower :: "string \<Rightarrow> string" where
  "ascii_lower s =
     map (\<lambda>c. case map_of (zip ''ABCDEFGHIJKLMNOPQRSTUVWXYZ'' ''abcdefghijklmnopqrstuvwxyz'') c of
                 Some d \<Rightarrow> d | None \<Rightarrow> c) s"

definition offline_world :: world where
  "offline_world =
     \<lparr>fetch_oddsshark = Inl (OtherError ''ConnectionError''),
      clock_date = (\<lambda>k. ''04 Nov 26''),
      fetch_odds_api = (\<lambda>k. Inl (OtherError ''ConnectionError'')),
      fetch_page = (\<lambda>i u. Inl (OtherError ''ConnectionError'')),
      py_float = exact_decimal,
      py_str = (\<lambda>v. ''None''),
      py_lower = ascii_lower,
      unicode_nd = category_nd,
      sleep_randomly = (\<lambda>i. None)\<rparr>"

definition fresh_scraper :: scraper where
  "fresh_scraper = OddsScraperAlt 0 False None"

definition discovered_scraper :: scraper where
  "discovered_scraper = fresh_scraper\<lparr>event_links := Some sample_events\<rparr>"

definition empty_disk :: filesystem where
  "empty_disk = \<lparr>files = Map.empty, writable = (\<lambda>p. True)\<rparr>"

text \<open>
  Three discovered events and a scraper in test mode that holds them; an answer of The
  Odds API with one event, one bookmaker and one head-to-head market of two outcomes, a
  world in which the API gives that answer, and a scraper that holds an API key.
\<close>

definition three_events :: "event list" where
  "three_events =
     [\<lparr>Date = ''4/13/2024'', Event = ''UFC 300 4/13/2024'', url = ''oddsshark_0''\<rparr>,
      \<lparr>Date = ''5/4/2024'', Event = ''UFC 301 5/4/2024'', url = ''oddsshark_1''\<rparr>,
      \<lparr>Date = ''6/1/2024'', Event = ''UFC 302 6/1/2024'', url = ''oddsshark_2''\<rparr>]"

definition test_scraper :: scraper where
  "test_scraper = (OddsScraperAlt 0 True None)\<lparr>event_links := Some three_events\<rparr>"

definition h2h_payload :: pyval where
  "h2h_payload = PList [PDict
     [(''id'', PStr ''abc''), (''sport_title'', PStr ''MMA''), (''commence_time'', PStr ''2025-07-19T22:00:00Z''),
      (''bookmakers'', PList [PDict
         [(''key'', PStr ''book''), (''markets'', PList [PDict
            [(''key'', PStr ''h2h''), (''outcomes'', PList
               [PDict [(''name'', PStr ''Leon Edwards''), (''price'', PFloat (Finite (37/20)))],
                PDict [(''name'', PStr ''Belal Muhammad''), (''price'', PFloat (Finite (39/20)))] ])] ])] ])] ]"

definition api_world :: world where
  "api_world = offline_world\<lparr>fetch_odds_api := (\<lambda>k. Inr h2h_payload)\<rparr>"

definition keyed_scraper :: scraper where
  "keyed_scraper = (OddsScraperAlt 0 False (Some ''key''))\<lparr>event_links := Some sample_events\<rparr>"

text \<open>
  The columns of a frame of the page-scrape adapter once the aggregator has attached
  \<^verbatim>\<open>link\<close> and \<^verbatim>\<open>date\<close> to it.
\<close>

definition page_staged_columns :: "string list" where
  "page_staged_columns = [''event'', ''fighter1'', ''fighter2'',
      ''fighter1_odds'', ''fighter2_odds'', ''result'', ''link'', ''date'']"

text \<open>
  A scraper whose only event has the locator of a real page, and one whose first event
  has such a locator and whose second event is served by the generator of samples. A
  parsed page whose first row raises while it is read and whose second row is a fight,
  and a world in which every page request gives that page.
\<close>

definition listed_scraper :: scraper where
  "listed_scraper = fresh_scraper\<lparr>event_links := Some
     [\<lparr>Date = ''19 Jul 25'', Event = ''UFC 304: Edwards vs Muhammad 2'',
       url = ''https://www.bestfightodds.com/events/ufc-304''\<rparr>]\<rparr>"




section \<open>Texts and patterns\<close>

lemma chars_ascii_examples:
  "chars ''1.0'' = [''1'', ''.'', ''0'']" "chars ''n/a'' = [''n'', ''/'', ''a'']"
  by (simp_all add: continuation_def)

lemma decimal_examples:
  "decimal_pattern nd ''1.0''" "decimal_pattern nd ''2.5''" "decimal_pattern nd ''3.0''"
  "decimal_pattern nd ''1.50''" "decimal_pattern nd ''2.75''" "decimal_pattern nd ''9.0''"
  by (simp_all add: decimal_pattern_def is_digit_def continuation_def code_point_def lead_bits_def)

lemma decimal_counterexamples:
  "\<not> decimal_pattern nd ''n/a''" "\<not> decimal_pattern nd ''+150''"
  by (simp_all add: decimal_pattern_def is_digit_def continuation_def code_point_def lead_bits_def)

text \<open>
  The Arabic-Indic text for 1.5, code points 1633, 46 and 1637, matches the pattern.
\<close>

lemma decimal_arabic_indic:
  "decimal_pattern category_nd [CHR 0xD9, CHR 0xA1, CHR ''.'', CHR 0xD9, CHR 0xA5]"
  by (simp add: decimal_pattern_def is_digit_def continuation_def category_nd_def nd_zeros_def
      code_point_def lead_bits_def)

lemma exact_examples:
  "exact_decimal ''1.0'' = Finite 1" "exact_decimal ''2.5'' = Finite (5/2)" "exact_decimal ''3.0'' = Finite 3"
  "exact_decimal ''1.50'' = Finite (3/2)" "exact_decimal ''2.75'' = Finite (11/4)"
  by (simp_all add: exact_decimal_def digits_val_def ascii_digit_def)

section \<open>Data frames: columns and rows\<close>

lemma ordered_union_distinct:
  "distinct ds \<Longrightarrow> ordered_union cs ds = cs @ filter (\<lambda>d. d \<notin> set cs) ds"
  unfolding ordered_union_def
proof (induction ds arbitrary: cs)
  case Nil
  then show ?case by simp
next
  case (Cons d ds)
  then have "filter (\<lambda>x. x \<noteq> d \<and> x \<notin> set cs) ds = filter (\<lambda>x. x \<notin> set cs) ds"
    by (intro filter_cong) auto
  with Cons show ?case by simp
qed

lemma ordered_union_absorb:
  "set ds \<subseteq> set cs \<Longrightarrow> ordered_union cs ds = cs"
  unfolding ordered_union_def by (induction ds) auto

lemma ordered_union_Nil: "distinct ds \<Longrightarrow> ordered_union [] ds = ds"
  by (simp add: ordered_union_distinct)

lemma fold_union_same:
  "\<forall>r \<in> set rs. set (f r) \<subseteq> set ks \<Longrightarrow> fold (\<lambda>d cs. ordered_union cs (f d)) rs ks = ks"
  by (induction rs) (simp_all add: ordered_union_absorb)

lemma columns_DataFrame:
  assumes "rs \<noteq> []" and "\<forall>r \<in> set rs. map fst r = ks" and "distinct ks"
  shows "columns (DataFrame rs) = ks"
proof -
  obtain r rest where rs: "rs = r # rest" using assms(1) by (cases rs) auto
  have "\<forall>x \<in> set rest. set (map fst x) \<subseteq> set ks" using assms(2) rs by auto
  then have "fold (\<lambda>d cs. ordered_union cs (map fst d)) rest ks = ks"
    by (rule fold_union_same)
  then show ?thesis using assms rs by (simp add: DataFrame_def ordered_union_Nil)
qed

lemma columns_pd_concat:
  assumes "distinct (columns d)" and "\<forall>x \<in> set ds. set (columns x) \<subseteq> set (columns d)"
  shows "columns (pd_concat (d # ds)) = columns d"
proof -
  have "fold (\<lambda>df cs. ordered_union cs (columns df)) ds (columns d) = columns d"
    using assms(2) by (rule fold_union_same)
  then show ?thesis using assms(1) by (simp add: pd_concat_def ordered_union_Nil)
qed

lemma columns_set_column:
  "columns (set_column c v df) = (if c \<in> set (columns df) then columns df else columns df @ [c])"
  by (simp add: set_column_def ordered_union_def)

lemma rows_set_column: "rows (set_column c v df) = map (AList.update c v) (rows df)"
  by (simp add: set_column_def)

lemma rows_pd_concat: "rows (pd_concat dfs) = concat (map rows dfs)"
  by (simp add: pd_concat_def)

lemma rows_DataFrame: "rows (DataFrame rs) = rs"
  by (simp add: DataFrame_def)

lemma extract_fight_keys:
  "extract_fight nd fl title r = Inr (Some fight) \<Longrightarrow> map fst fight = page_columns"
  by (auto simp: extract_fight_def page_columns_def Let_def split: fight_row.splits if_splits prod.splits)

lemma collect_fights_keys:
  "\<forall>f \<in> set fights. map fst f = page_columns \<Longrightarrow>
   \<forall>f \<in> set (collect_fights nd fl title rs fights). map fst f = page_columns"
proof (induction rs arbitrary: fights)
  case Nil
  then show ?case by simp
next
  case (Cons r rs)
  show ?case
  proof (cases "extract_fight nd fl title r")
    case (Inl e)
    then show ?thesis using Cons by simp
  next
    case (Inr res)
    show ?thesis
    proof (cases res)
      case None
      then show ?thesis using Inr Cons by simp
    next
      case (Some fight)
      then have "map fst fight = page_columns" using Inr by (simp add: extract_fight_keys)
      then have "\<forall>f \<in> set (fights @ [fight]). map fst f = page_columns" using Cons.prems by auto
      then have "\<forall>f \<in> set (collect_fights nd fl title rs (fights @ [fight])). map fst f = page_columns"
        by (rule Cons.IH)
      then show ?thesis using Inr Some by simp
    qed
  qed
qed

lemma oddsshark_event_frame:
  "columns (scrape_oddsshark_event fl) = page_columns \<and> rows (scrape_oddsshark_event fl) \<noteq> []"
  by (simp add: scrape_oddsshark_event_def DataFrame_def sample_fight_def ordered_union_def page_columns_def)

lemma page_frame_shape:
  assumes "scrape_event_odds_page w i u = Inr (Some df)"
  shows "columns df = page_columns \<and> rows df \<noteq> []"
proof (cases "prefix ''oddsshark_'' u")
  case True
  then have "df = scrape_oddsshark_event (py_float w)"
    using assms by (simp add: scrape_event_odds_page_def)
  then show ?thesis by (simp add: oddsshark_event_frame)
next
  case False
  then obtain sp where sp: "fetch_page w i u = Inr sp"
    using assms by (cases "fetch_page w i u") (auto simp: scrape_event_odds_page_def bind_exn_def)
  define fights where "fights = collect_fights (unicode_nd w) (py_float w) (h1 sp)
     (if tr_rows sp \<noteq> [] then tr_rows sp else div_rows sp) []"
  have df: "fights \<noteq> [] \<and> df = DataFrame fights"
    using assms False sp
    by (auto simp: scrape_event_odds_page_def bind_exn_def Let_def fights_def split: if_splits)
  have "\<forall>f \<in> set fights. map fst f = page_columns"
    unfolding fights_def by (rule collect_fights_keys) simp
  then have "columns (DataFrame fights) = page_columns"
    using df by (intro columns_DataFrame) (auto simp: page_columns_def)
  then show ?thesis using df by (simp add: rows_DataFrame)
qed

section \<open>The adapters never raise, and the shape of their frames\<close>

lemma bind_exn_Inr_iff:
  "bind_exn m f = Inr y \<longleftrightarrow> (\<exists>x. m = Inr x \<and> f x = Inr y)"
  by (cases m) (simp_all add: bind_exn_def)

lemma api_fight_keys:
  "api_fight w event name ct outcomes = Inr fight \<Longrightarrow> map fst fight = api_columns"
  by (auto simp: api_fight_def bind_exn_Inr_iff api_columns_def)

lemma api_markets_keys:
  "api_markets w event name ct ms results = Inr out \<Longrightarrow>
   \<forall>f \<in> set results. map fst f = api_columns \<Longrightarrow>
   \<forall>f \<in> set out. map fst f = api_columns"
proof (induction ms arbitrary: results)
  case Nil
  then show ?case by simp
next
  case (Cons m ms)
  from Cons.prems(1) obtain key where key: "py_get m ''key'' PNone = Inr key"
    by (auto simp: bind_exn_Inr_iff)
  show ?case
  proof (cases "key = PStr ''h2h''")
    case False
    then have "api_markets w event name ct ms results = Inr out"
      using Cons.prems(1) key by (simp add: bind_exn_def)
    then show ?thesis using Cons.IH Cons.prems(2) by blast
  next
    case True
    then obtain n where n: "bind_exn (py_get m ''outcomes'' (PList [])) py_len = Inr n"
      using Cons.prems(1) key by (auto simp: bind_exn_Inr_iff)
    show ?thesis
    proof (cases "n \<ge> 2")
      case False
      then have "api_markets w event name ct ms results = Inr out"
        using Cons.prems(1) key True n by (simp add: bind_exn_def)
      then show ?thesis using Cons.IH Cons.prems(2) by blast
    next
      case ge: True
      then obtain outcomes fight where
        f: "api_fight w event name ct outcomes = Inr fight" and
        r: "api_markets w event name ct ms (results @ [fight]) = Inr out"
        using Cons.prems(1) key True n by (auto simp: bind_exn_Inr_iff)
      have "\<forall>f \<in> set (results @ [fight]). map fst f = api_columns"
        using Cons.prems(2) api_fight_keys[OF f] by auto
      with r show ?thesis using Cons.IH by blast
    qed
  qed
qed

lemma api_events_keys:
  "api_events w evs results = Inr out \<Longrightarrow>
   \<forall>f \<in> set results. map fst f = api_columns \<Longrightarrow>
   \<forall>f \<in> set out. map fst f = api_columns"
proof (induction evs arbitrary: results)
  case Nil
  then show ?case by simp
next
  case (Cons ev evs)
  from Cons.prems(1) obtain name ct b where
    g: "py_get ev ''sport_title'' (PStr ''UFC Event'') = Inr name"
       "py_get ev ''commence_time'' (PStr []) = Inr ct"
       "py_get ev ''bookmakers'' PNone = Inr b"
    by (auto simp: bind_exn_Inr_iff)
  show ?case
  proof (cases "truthy b")
    case False
    then have "api_events w evs results = Inr out"
      using Cons.prems(1) g by (simp add: bind_exn_def)
    then show ?thesis using Cons.IH Cons.prems(2) by blast
  next
    case True
    then obtain ms results' where
      m: "api_markets w ev name ct ms results = Inr results'" and
      r: "api_events w evs results' = Inr out"
      using Cons.prems(1) g by (auto simp: bind_exn_Inr_iff)
    have "\<forall>f \<in> set results'. map fst f = api_columns"
      using api_markets_keys[OF m Cons.prems(2)] .
    with r show ?thesis using Cons.IH by blast
  qed
qed

lemma api_frame_shape:
  assumes "scrape_from_odds_api w k = Inr (Some df)"
  shows "columns df = api_columns \<and> rows df \<noteq> []"
proof -
  define body where "body = bind_exn (fetch_odds_api w k) (\<lambda>data.
           bind_exn (py_iter data) (\<lambda>events. api_events w events []))"
  from assms obtain results where res: "body = Inr results" "results \<noteq> []" "df = DataFrame results"
    by (cases body) (auto simp: scrape_from_odds_api_def body_def[symmetric] split: if_splits)
  then obtain events where "api_events w events [] = Inr results"
    by (auto simp: body_def bind_exn_Inr_iff)
  then have "\<forall>f \<in> set results. map fst f = api_columns"
    by (rule api_events_keys) simp
  then have "columns (DataFrame results) = api_columns"
    using res(2) by (intro columns_DataFrame) (auto simp: api_columns_def)
  then show ?thesis using res by (simp add: rows_DataFrame)
qed

lemma api_never_raises: "\<exists>r. scrape_from_odds_api w k = Inr r"
  by (simp add: scrape_from_odds_api_def split: sum.splits)


section \<open>The loop of the aggregator\<close>

lemma scrape_event_eq:
  "scrape_event w i ev st =
     \<lparr>scraped_results = scraped_results st @ page_frame w (i, ev),
      page_calls = page_calls st @ [(i, url ev)]\<rparr>"
  by (cases "scrape_event_odds_page w i (url ev)")
     (auto simp: scrape_event_def page_frame_def Let_def split: option.splits)

lemma scrape_events_eq:
  "scrape_events w t ies st =
     \<lparr>scraped_results = scraped_results st @ concat (map (page_frame w) (processed t ies)),
      page_calls = page_calls st @ map (\<lambda>ie. (fst ie, url (snd ie))) (processed t ies)\<rparr>"
proof (induction ies arbitrary: st)
  case Nil
  then show ?case by (simp add: processed_def)
next
  case (Cons ie ies)
  obtain i ev where ie: "ie = (i, ev)" by (cases ie)
  show ?case
  proof (cases "t \<and> i \<ge> 2")
    case True
    then show ?thesis using ie by (simp add: processed_def)
  next
    case False
    then have p: "processed t ((i, ev) # ies) = (i, ev) # processed t ies"
      by (auto simp: processed_def)
    have "scrape_events w t (ie # ies) st = scrape_events w t ies (scrape_event w i ev st)"
      using False ie by auto
    also have "\<dots> = \<lparr>scraped_results = scraped_results (scrape_event w i ev st) @
                      concat (map (page_frame w) (processed t ies)),
                    page_calls = page_calls (scrape_event w i ev st) @
                      map (\<lambda>ie. (fst ie, url (snd ie))) (processed t ies)\<rparr>"
      by (rule Cons.IH)
    finally show ?thesis using ie by (simp add: p scrape_event_eq)
  qed
qed

lemma processed_enumerate:
  "processed True (enumerate 0 evs) = take 2 (enumerate 0 evs)"
proof (cases evs)
  case Nil
  then show ?thesis by (simp add: processed_def)
next
  case (Cons a as)
  show ?thesis
  proof (cases as)
    case Nil
    then show ?thesis using Cons by (simp add: processed_def)
  next
    case (Cons b bs)
    then have "evs = a # b # bs" using \<open>evs = a # as\<close> by simp
    then show ?thesis
      by (cases bs) (simp_all add: processed_def numeral_2_eq_2)
  qed
qed

lemma api_staged:
  "(case odds_api_key s of
      None \<Rightarrow> Inr []
    | Some k \<Rightarrow>
        if k \<noteq> [] then
          bind_exn (scrape_from_odds_api w k) (\<lambda>api_results.
            Inr (case api_results of None \<Rightarrow> [] | Some df \<Rightarrow> [df]))
        else Inr []) = Inr (api_frame w s)"
proof (cases "odds_api_key s")
  case None
  then show ?thesis by (simp add: api_frame_def)
next
  case (Some k)
  obtain r where "scrape_from_odds_api w k = Inr r" using api_never_raises by blast
  then show ?thesis using Some
    by (cases r) (simp_all add: api_frame_def bind_exn_def)
qed

lemma scrape_all_eq:
  assumes "event_links s = Some evs" and "evs \<noteq> []"
  shows "scrape_all_event_odds w s =
     Inr (s\<lparr>event_odds := Some
            (if staged_frames w s evs \<noteq> [] then
               set_column ''timestamp'' (PTime (curr_time s)) (pd_concat (staged_frames w s evs))
             else empty_frame output_columns)\<rparr>,
          map (\<lambda>ie. (fst ie, url (snd ie))) (processed (test s) (enumerate 0 evs)))"
  using assms
  by (simp add: scrape_all_event_odds_def api_staged bind_exn_def scrape_events_eq
      staged_frames_def Let_def)

lemma scrape_all_early:
  assumes "event_links s = None \<or> event_links s = Some []"
  shows "scrape_all_event_odds w s = Inr (s, [])"
  using assms by (auto simp: scrape_all_event_odds_def)

section \<open>The scan of the odds cells\<close>

lemma scan_assigned:
  "f1 \<noteq> Finite 1 \<Longrightarrow> scan_odds_cells nd fl cells f1 (Finite 1) =
     (case filter (decimal_pattern nd) cells of [] \<Rightarrow> (f1, Finite 1) | b # rest \<Rightarrow> (f1, fl b))"
  by (induction cells) (auto simp: Let_def)

lemma scan_first:
  assumes "filter (decimal_pattern nd) cells = a # rest" and "fl a \<noteq> Finite 1"
  shows "scan_odds_cells nd fl cells (Finite 1) (Finite 1) =
     (fl a, case rest of [] \<Rightarrow> Finite 1 | b # rest' \<Rightarrow> fl b)"
  using assms
proof (induction cells)
  case Nil
  then show ?case by simp
next
  case (Cons c cells)
  show ?case
  proof (cases "decimal_pattern nd c")
    case True
    then have "c = a" "filter (decimal_pattern nd) cells = rest" using Cons.prems(1) by simp_all
    then show ?thesis using True Cons.prems(2) by (simp add: scan_assigned split: list.splits)
  next
    case False
    then show ?thesis using Cons by simp
  qed
qed

lemma scan_none:
  "filter (decimal_pattern nd) cells = [] \<Longrightarrow>
   scan_odds_cells nd fl cells f1 f2 = (f1, f2)"
  by (induction cells) (auto split: if_splits)

section \<open>The columns of the result\<close>

lemma api_frame_cases:
  "api_frame w s = [] \<or>
   (\<exists>k df. scrape_from_odds_api w k = Inr (Some df) \<and> api_frame w s = [df])"
  by (auto simp: api_frame_def split: option.split sum.split)

lemma page_frame_cases:
  "page_frame w ie = [] \<or>
   (\<exists>df. scrape_event_odds_page w (fst ie) (url (snd ie)) = Inr (Some df) \<and>
     page_frame w ie =
       [set_column ''date'' (PStr (Date (snd ie))) (set_column ''link'' (PStr (url (snd ie))) df)])"
  by (auto simp: page_frame_def split: option.split sum.split)

lemma api_frame_columns:
  assumes "f \<in> set (api_frame w s)"
  shows "columns f = api_columns"
proof -
  from api_frame_cases [of w s] assms obtain k where "scrape_from_odds_api w k = Inr (Some f)"
    by auto
  then show ?thesis by (simp add: api_frame_shape)
qed

lemma page_frame_columns:
  assumes "f \<in> set (page_frame w ie)"
  shows "columns f = page_staged_columns"
proof -
  from page_frame_cases [of w ie] assms obtain df where
    df: "scrape_event_odds_page w (fst ie) (url (snd ie)) = Inr (Some df)" and
    f: "f = set_column ''date'' (PStr (Date (snd ie))) (set_column ''link'' (PStr (url (snd ie))) df)"
    by auto
  have "columns df = page_columns" using df by (simp add: page_frame_shape)
  then show ?thesis
    by (simp add: f columns_set_column page_columns_def page_staged_columns_def)
qed

lemma staged_columns:
  assumes "f \<in> set (staged_frames w s evs)"
  shows "columns f = api_columns \<or> columns f = page_staged_columns"
proof -
  from assms have "f \<in> set (api_frame w s) \<or>
      (\<exists>ie \<in> set (processed (test s) (enumerate 0 evs)). f \<in> set (page_frame w ie))"
    by (auto simp: staged_frames_def)
  then show ?thesis using api_frame_columns page_frame_columns by blast
qed

lemma same_set_columns:
  "set api_columns = set page_staged_columns" "distinct api_columns" "distinct page_staged_columns"
  by (auto simp: api_columns_def page_staged_columns_def)

lemma pd_concat_columns:
  assumes "fs = d # ds" and "\<forall>f \<in> set fs. columns f = api_columns \<or> columns f = page_staged_columns"
  shows "columns (pd_concat fs) = columns d"
proof -
  have d: "columns d = api_columns \<or> columns d = page_staged_columns" using assms by simp
  then have dist: "distinct (columns d)" using same_set_columns by auto
  have "\<forall>x \<in> set ds. set (columns x) \<subseteq> set (columns d)"
    using assms d same_set_columns(1) by fastforce
  then show ?thesis using dist assms(1) by (simp add: columns_pd_concat)
qed

lemma final_columns:
  assumes "event_links s = Some evs" and "evs \<noteq> []"
    and "scrape_all_event_odds w s = Inr (s', calls)"
  shows "\<exists>df. event_odds s' = Some df \<and>
      (columns df = api_columns @ [''timestamp''] \<or> columns df = page_staged_columns @ [''timestamp''])"
proof (cases "staged_frames w s evs")
  case Nil
  then have "event_odds s' = Some (empty_frame output_columns)"
    using assms scrape_all_eq [OF assms(1,2), of w] by auto
  then show ?thesis by (simp add: empty_frame_def output_columns_def api_columns_def)
next
  case (Cons d ds)
  have all: "\<forall>f \<in> set (staged_frames w s evs). columns f = api_columns \<or> columns f = page_staged_columns"
    using staged_columns by blast
  have c: "columns (pd_concat (staged_frames w s evs)) = columns d"
    using Cons all by (rule pd_concat_columns)
  have d: "columns d = api_columns \<or> columns d = page_staged_columns"
    using all Cons by simp
  have e: "event_odds s' = Some (set_column ''timestamp'' (PTime (curr_time s)) (pd_concat (staged_frames w s evs)))"
    using assms scrape_all_eq [OF assms(1,2), of w] Cons by auto
  have "columns (set_column ''timestamp'' (PTime (curr_time s)) (pd_concat (staged_frames w s evs))) =
        columns d @ [''timestamp'']"
    using d by (auto simp: columns_set_column c api_columns_def page_staged_columns_def)
  then show ?thesis using e d by auto
qed

lemma nine_columns:
  "set (api_columns @ [''timestamp'']) = set output_columns"
  "set (page_staged_columns @ [''timestamp'']) = set output_columns"
  "distinct (api_columns @ [''timestamp''])" "distinct (page_staged_columns @ [''timestamp''])"
  "length (api_columns @ [''timestamp'']) = 9" "length (page_staged_columns @ [''timestamp'']) = 9"
  by (auto simp: api_columns_def page_staged_columns_def output_columns_def)

lemma api_frame_without_key: "odds_api_key s = None \<Longrightarrow> api_frame w s = []"
  by (simp add: api_frame_def)

lemma pipeline_has_events:
  "get_individual_event_urls w s = Inr s1 \<Longrightarrow> \<exists>evs. event_links s1 = Some evs \<and> evs \<noteq> []"
  by (auto simp: get_individual_event_urls_def Let_def sample_events_def)

section \<open>The rows of the result\<close>

lemma page_frame_rows: "concat (map rows (page_frame w ie)) = page_rows w ie"
  by (simp add: page_frame_def page_rows_def rows_set_column split: sum.split option.split)

lemma concat_page_rows:
  "concat (map rows (concat (map (page_frame w) ies))) = concat (map (page_rows w) ies)"
  by (induction ies) (simp_all add: page_frame_rows)

lemma staged_rows:
  "concat (map rows (staged_frames w s evs)) =
     api_rows w s @ concat (map (page_rows w) (processed (test s) (enumerate 0 evs)))"
  by (simp add: staged_frames_def api_rows_def concat_page_rows)

lemma final_rows:
  assumes "event_links s = Some evs" and "evs \<noteq> []"
  shows "\<exists>s' df. scrape_all_event_odds w s =
             Inr (s', map (\<lambda>ie. (fst ie, url (snd ie))) (processed (test s) (enumerate 0 evs)))
      \<and> event_odds s' = Some df \<and> curr_time s' = curr_time s
      \<and> rows df = map (AList.update ''timestamp'' (PTime (curr_time s)))
            (api_rows w s @ concat (map (page_rows w) (processed (test s) (enumerate 0 evs))))"
proof (cases "staged_frames w s evs = []")
  case True
  then have "concat (map rows (staged_frames w s evs)) = []" by simp
  then have "api_rows w s @ concat (map (page_rows w) (processed (test s) (enumerate 0 evs))) = []"
    by (simp only: staged_rows)
  then show ?thesis using True scrape_all_eq [OF assms, of w] by (simp add: empty_frame_def)
next
  case False
  have "rows (set_column ''timestamp'' (PTime (curr_time s)) (pd_concat (staged_frames w s evs))) =
        map (AList.update ''timestamp'' (PTime (curr_time s)))
          (api_rows w s @ concat (map (page_rows w) (processed (test s) (enumerate 0 evs))))"
    by (simp only: rows_set_column rows_pd_concat staged_rows)
  then show ?thesis using False scrape_all_eq [OF assms, of w] by simp
qed

lemma map_of_update_same: "map_of (AList.update k v r) k = Some v"
  by (simp add: update_conv')

lemma map_const:
  "\<forall>x \<in> set xs. f x = c \<Longrightarrow> map f xs = replicate (length xs) c"
  by (induction xs) simp_all

lemma enumerate_map_snd:
  "map (\<lambda>ie. (fst ie, f (snd ie))) (enumerate n xs) = enumerate n (map f xs)"
  by (induction xs arbitrary: n) simp_all

section \<open>Concrete runs\<close>

lemma discovered_events:
  "event_links discovered_scraper = Some sample_events" "sample_events \<noteq> []"
  "odds_api_key discovered_scraper = None" "test discovered_scraper = False"
  "curr_time discovered_scraper = 0"
  by (simp_all add: discovered_scraper_def fresh_scraper_def OddsScraperAlt_def sample_events_def)

lemma offline_page:
  "page_frame offline_world (i, \<lparr>Date = d, Event = e, url = ''oddsshark_'' @ u\<rparr>) =
     [set_column ''date'' (PStr d) (set_column ''link'' (PStr (''oddsshark_'' @ u))
        (scrape_oddsshark_event exact_decimal))]"
  using oddsshark_event_frame [of exact_decimal]
  by (simp add: page_frame_def scrape_event_odds_page_def offline_world_def)

lemma offline_staged:
  "staged_frames offline_world discovered_scraper sample_events \<noteq> []"
  "api_frame offline_world discovered_scraper = []"
proof -
  have "page_frame offline_world (0, \<lparr>Date = ''19 Jul 25'', Event = ''UFC 304: Edwards vs Muhammad 2'',
          url = ''oddsshark_'' @ ''sample_1''\<rparr>) \<noteq> []"
    by (simp only: offline_page) simp
  then show "staged_frames offline_world discovered_scraper sample_events \<noteq> []"
    by (simp add: staged_frames_def discovered_events processed_def sample_events_def)
  show "api_frame offline_world discovered_scraper = []"
    by (simp add: api_frame_without_key discovered_events)
qed

lemma listed_events:
  "event_links listed_scraper = Some
     [\<lparr>Date = ''19 Jul 25'', Event = ''UFC 304: Edwards vs Muhammad 2'',
       url = ''https://www.bestfightodds.com/events/ufc-304''\<rparr>]"
  "odds_api_key listed_scraper = None" "test listed_scraper = False"
  by (simp_all add: listed_scraper_def fresh_scraper_def OddsScraperAlt_def)

lemma offline_listed_rows:
  "page_rows offline_world (0, \<lparr>Date = ''19 Jul 25'', Event = ''UFC 304: Edwards vs Muhammad 2'',
       url = ''https://www.bestfightodds.com/events/ufc-304''\<rparr>) = []"
  by (simp add: page_rows_def scrape_event_odds_page_def offline_world_def bind_exn_def)

lemma oddsshark_page:
  "scrape_event_odds_page w i (''oddsshark_'' @ u) = Inr (Some (scrape_oddsshark_event (py_float w)))"
  by (simp add: scrape_event_odds_page_def)

lemma sample_page_rows:
  "map (\<lambda>r. (map_of r ''link'', map_of r ''fighter1''))
      (page_rows w (i, \<lparr>Date = d, Event = e, url = ''oddsshark_'' @ u\<rparr>)) =
     [(Some (PStr (''oddsshark_'' @ u)), Some (PStr ''Leon Edwards'')),
      (Some (PStr (''oddsshark_'' @ u)), Some (PStr ''Tom Aspinall'')),
      (Some (PStr (''oddsshark_'' @ u)), Some (PStr ''Cory Sandhagen'')),
      (Some (PStr (''oddsshark_'' @ u)), Some (PStr ''Shara Magomedov''))]"
  by (simp only: page_rows_def fst_conv snd_conv event.simps oddsshark_page sum.case option.case)
     (simp add: scrape_oddsshark_event_def DataFrame_def sample_fight_def update_conv')

lemma keyed_events:
  "event_links keyed_scraper = Some sample_events" "odds_api_key keyed_scraper = Some ''key''"
  "test keyed_scraper = False"
  by (simp_all add: keyed_scraper_def OddsScraperAlt_def)

lemma h2h_api_frame:
  "scrape_from_odds_api api_world ''key'' = Inr (Some (DataFrame
     [ [(''link'', PStr ''odds_api_abc''), (''date'', PStr ''2025-07-19''), (''event'', PStr ''MMA''),
       (''fighter1'', PStr ''Leon Edwards''), (''fighter2'', PStr ''Belal Muhammad''),
       (''fighter1_odds'', PFloat (Finite (37/20))), (''fighter2_odds'', PFloat (Finite (39/20))),
       (''result'', PStr [])] ]))"
  by (simp add: scrape_from_odds_api_def api_world_def offline_world_def h2h_payload_def bind_exn_def
      api_fight_def format_val_def continuation_def)

lemma keyed_api_rows:
  "api_rows api_world keyed_scraper =
     [ [(''link'', PStr ''odds_api_abc''), (''date'', PStr ''2025-07-19''), (''event'', PStr ''MMA''),
       (''fighter1'', PStr ''Leon Edwards''), (''fighter2'', PStr ''Belal Muhammad''),
       (''fighter1_odds'', PFloat (Finite (37/20))), (''fighter2_odds'', PFloat (Finite (39/20))),
       (''result'', PStr [])] ]"
  by (simp add: api_rows_def api_frame_def keyed_events h2h_api_frame rows_DataFrame)




section \<open>The claims\<close>

text \<open>
  C1, with the condition it needs. When \<open>event_links\<close> holds at least one event, as it
  does after every event discovery, the aggregator returns and leaves a result whose
  columns are exactly the nine of \<open>output_columns\<close>, each once, whatever the sources
  produced and also when they produced no rows. When \<open>event_links\<close> is \<^verbatim>\<open>None\<close> or
  empty, the aggregator returns at once and the scraper is unchanged: no result is made.
\<close>

theorem nine_columns_when_events:
  "(event_links s = Some evs \<and> evs \<noteq> [] \<longrightarrow>
      (\<exists>s' calls df. scrape_all_event_odds w s = Inr (s', calls) \<and> event_odds s' = Some df
         \<and> set (columns df) = set output_columns \<and> distinct (columns df) \<and> length (columns df) = 9))
   \<and> (event_links s = None \<or> event_links s = Some [] \<longrightarrow> scrape_all_event_odds w s = Inr (s, []))"
proof (intro conjI impI)
  assume a: "event_links s = Some evs \<and> evs \<noteq> []"
  then have ev: "event_links s = Some evs" "evs \<noteq> []" by simp_all
  obtain s' calls where r: "scrape_all_event_odds w s = Inr (s', calls)"
    using scrape_all_eq [OF ev, of w] by blast
  from final_columns [OF ev r] obtain df where
    df: "event_odds s' = Some df" and
    c: "columns df = api_columns @ [''timestamp''] \<or> columns df = page_staged_columns @ [''timestamp'']"
    by blast
  from c have "set (columns df) = set output_columns \<and> distinct (columns df) \<and> length (columns df) = 9"
    using nine_columns by metis
  then show "\<exists>s' calls df. scrape_all_event_odds w s = Inr (s', calls) \<and> event_odds s' = Some df
         \<and> set (columns df) = set output_columns \<and> distinct (columns df) \<and> length (columns df) = 9"
    using r df by blast
next
  assume "event_links s = None \<or> event_links s = Some []"
  then show "scrape_all_event_odds w s = Inr (s, [])" by (rule scrape_all_early)
qed

theorem nine_columns_when_events_witness:
  "event_links discovered_scraper = Some sample_events \<and> sample_events \<noteq> []
   \<and> (\<exists>s' calls df. scrape_all_event_odds offline_world discovered_scraper = Inr (s', calls)
         \<and> event_odds s' = Some df
         \<and> set (columns df) = set output_columns \<and> distinct (columns df) \<and> length (columns df) = 9)
   \<and> (\<exists>s' calls df. scrape_all_event_odds offline_world listed_scraper = Inr (s', calls)
         \<and> event_odds s' = Some df \<and> rows df = []
         \<and> set (columns df) = set output_columns \<and> distinct (columns df) \<and> length (columns df) = 9)
   \<and> event_links fresh_scraper = None
   \<and> scrape_all_event_odds offline_world fresh_scraper = Inr (fresh_scraper, [])"
proof -
  have a: "\<exists>s' calls df. scrape_all_event_odds offline_world discovered_scraper = Inr (s', calls)
         \<and> event_odds s' = Some df
         \<and> set (columns df) = set output_columns \<and> distinct (columns df) \<and> length (columns df) = 9"
    using nine_columns_when_events [of discovered_scraper sample_events offline_world]
    by (simp add: discovered_events)
  have l: "event_links listed_scraper = Some
     [\<lparr>Date = ''19 Jul 25'', Event = ''UFC 304: Edwards vs Muhammad 2'',
       url = ''https://www.bestfightodds.com/events/ufc-304''\<rparr>]"
     "[\<lparr>Date = ''19 Jul 25'', Event = ''UFC 304: Edwards vs Muhammad 2'',
       url = ''https://www.bestfightodds.com/events/ufc-304''\<rparr>] \<noteq> []"
    by (simp_all add: listed_events)
  from nine_columns_when_events [of listed_scraper _ offline_world] l obtain s' calls df where
    r: "scrape_all_event_odds offline_world listed_scraper = Inr (s', calls)" "event_odds s' = Some df"
       "set (columns df) = set output_columns" "distinct (columns df)" "length (columns df) = 9"
    by blast
  from final_rows [OF l, of offline_world] r have "rows df = []"
    by (auto simp: api_rows_def api_frame_without_key listed_events processed_def offline_listed_rows)
  then have b: "\<exists>s' calls df. scrape_all_event_odds offline_world listed_scraper = Inr (s', calls)
         \<and> event_odds s' = Some df \<and> rows df = []
         \<and> set (columns df) = set output_columns \<and> distinct (columns df) \<and> length (columns df) = 9"
    using r by blast
  have n: "event_links fresh_scraper = None" by (simp add: fresh_scraper_def OddsScraperAlt_def)
  have c: "scrape_all_event_odds offline_world fresh_scraper = Inr (fresh_scraper, [])"
    using nine_columns_when_events [of fresh_scraper "[]" offline_world] n by simp
  show ?thesis using a b n c by (simp add: discovered_events)
qed

text \<open>
  C1 as stated fails for a run without events: on a new scraper, and on one whose
  \<open>event_links\<close> is empty, the aggregator returns and \<open>event_odds\<close> is still \<^verbatim>\<open>None\<close>.
\<close>

theorem no_result_without_events_counterexample:
  "event_links fresh_scraper = None
   \<and> scrape_all_event_odds offline_world fresh_scraper = Inr (fresh_scraper, [])
   \<and> event_odds fresh_scraper = None
   \<and> scrape_all_event_odds offline_world (fresh_scraper\<lparr>event_links := Some []\<rparr>) =
       Inr (fresh_scraper\<lparr>event_links := Some []\<rparr>, [])
   \<and> event_odds (fresh_scraper\<lparr>event_links := Some []\<rparr>) = None"
  by (simp add: scrape_all_event_odds_def fresh_scraper_def OddsScraperAlt_def)

text \<open>
  C2. The columns of the result are those of the first staged frame, followed by
  \<^verbatim>\<open>timestamp\<close>. When the live API staged a frame, or nothing was staged, this is the
  fixed order that starts with \<^verbatim>\<open>link\<close> and \<^verbatim>\<open>date\<close>. When only the page-scrape adapter
  staged frames, \<^verbatim>\<open>link\<close> and \<^verbatim>\<open>date\<close>, which the aggregator attaches to each of its
  frames, come after \<^verbatim>\<open>result\<close>: the fixed order is then not kept.
\<close>

theorem column_order_follows_first_source:
  assumes "event_links s = Some evs" and "evs \<noteq> []"
  shows "\<exists>s' calls df. scrape_all_event_odds w s = Inr (s', calls) \<and> event_odds s' = Some df
      \<and> columns df =
          (if api_frame w s = [] \<and> staged_frames w s evs \<noteq> []
           then [''event'', ''fighter1'', ''fighter2'', ''fighter1_odds'', ''fighter2_odds'',
                 ''result'', ''link'', ''date'', ''timestamp'']
           else [''link'', ''date'', ''event'', ''fighter1'', ''fighter2'', ''fighter1_odds'',
                 ''fighter2_odds'', ''result'', ''timestamp''])"
proof (cases "staged_frames w s evs")
  case Nil
  then show ?thesis
    using scrape_all_eq [OF assms, of w] by (simp add: empty_frame_def output_columns_def)
next
  case (Cons d ds)
  have all: "\<forall>f \<in> set (staged_frames w s evs). columns f = api_columns \<or> columns f = page_staged_columns"
    using staged_columns by blast
  have c: "columns (pd_concat (staged_frames w s evs)) = columns d"
    using Cons all by (rule pd_concat_columns)
  have first: "columns d = (if api_frame w s = [] then page_staged_columns else api_columns)"
  proof (cases "api_frame w s")
    case Nil
    then have "d \<in> set (concat (map (page_frame w) (processed (test s) (enumerate 0 evs))))"
      using Cons by (simp add: staged_frames_def)
    then obtain ie where "d \<in> set (page_frame w ie)" by auto
    then show ?thesis using Nil by (simp add: page_frame_columns)
  next
    case (Cons a as)
    then have "d = a" using \<open>staged_frames w s evs = d # ds\<close> by (simp add: staged_frames_def)
    then have "d \<in> set (api_frame w s)" using Cons by simp
    then have "columns d = api_columns" by (rule api_frame_columns)
    then show ?thesis using Cons by simp
  qed
  have "columns (set_column ''timestamp'' (PTime (curr_time s)) (pd_concat (staged_frames w s evs))) =
        (if api_frame w s = [] then page_staged_columns else api_columns) @ [''timestamp'']"
    by (simp add: columns_set_column c first api_columns_def page_staged_columns_def)
  then show ?thesis
    using scrape_all_eq [OF assms, of w] Cons
    by (simp add: api_columns_def page_staged_columns_def)
qed

text \<open>
  Without an API key and with the two sample events, every row comes from the page-scrape
  adapter and the columns are not in the fixed order.
\<close>

theorem column_order_follows_first_source_witness:
  "event_links discovered_scraper = Some sample_events \<and> sample_events \<noteq> []
   \<and> (\<exists>s' calls df. scrape_all_event_odds offline_world discovered_scraper = Inr (s', calls)
         \<and> event_odds s' = Some df
         \<and> columns df = [''event'', ''fighter1'', ''fighter2'', ''fighter1_odds'', ''fighter2_odds'',
                          ''result'', ''link'', ''date'', ''timestamp''])
   \<and> [''event'', ''fighter1'', ''fighter2'', ''fighter1_odds'', ''fighter2_odds'',
       ''result'', ''link'', ''date'', ''timestamp''] \<noteq> output_columns"
  using column_order_follows_first_source [of discovered_scraper sample_events offline_world]
  by (simp add: discovered_events offline_staged output_columns_def)

text \<open>
  C3. When the fetch or the parse of the listing page raises, or the scan of the page
  finds no event, \<^verbatim>\<open>get_individual_event_urls\<close> returns normally and \<open>event_links\<close>
  holds exactly the two sample events, \<^verbatim>\<open>UFC 304: Edwards vs Muhammad 2\<close> and
  \<^verbatim>\<open>UFC Fight Night: Sandhagen vs Nurmagomedov\<close>, in this order.
\<close>

theorem discovery_falls_back_to_samples:
  assumes "(\<exists>e. fetch_oddsshark w = Inl e) \<or> get_events_from_oddsshark w = Inr []"
  shows "get_individual_event_urls w s = Inr (s\<lparr>event_links := Some
           [\<lparr>Date = ''19 Jul 25'', Event = ''UFC 304: Edwards vs Muhammad 2'', url = ''oddsshark_sample_1''\<rparr>,
            \<lparr>Date = ''27 Jul 25'', Event = ''UFC Fight Night: Sandhagen vs Nurmagomedov'', url = ''oddsshark_sample_2''\<rparr>]\<rparr>)"
proof -
  have "get_events_from_oddsshark w = Inr []"
    using assms by (auto simp: get_events_from_oddsshark_def bind_exn_def)
  then show ?thesis
    by (simp add: get_individual_event_urls_def sample_events_def)
qed

theorem discovery_falls_back_to_samples_witness:
  "((\<exists>e. fetch_oddsshark offline_world = Inl e) \<or> get_events_from_oddsshark offline_world = Inr [])
   \<and> get_individual_event_urls offline_world fresh_scraper = Inr discovered_scraper
   \<and> map Event (the (event_links discovered_scraper)) =
       [''UFC 304: Edwards vs Muhammad 2'', ''UFC Fight Night: Sandhagen vs Nurmagomedov'']"
proof -
  have h: "(\<exists>e. fetch_oddsshark offline_world = Inl e) \<or> get_events_from_oddsshark offline_world = Inr []"
    by (simp add: offline_world_def)
  show ?thesis
    using h discovery_falls_back_to_samples [OF h, of fresh_scraper]
    by (simp add: discovered_scraper_def sample_events_def)
qed

text \<open>
  C4. For a row with at least two fighter links one fight is recorded, with the fighters
  of the first two links. Let \<open>ms\<close> be the cells that match the decimal pattern, in order.
  Provided the first of them does not read \<^verbatim>\<open>1.0\<close>, \<^verbatim>\<open>fighter1_odds\<close> is the value of the
  first matching cell and \<^verbatim>\<open>fighter2_odds\<close> the value of the second, each \<^verbatim>\<open>1.0\<close> when
  there is no such cell, and no later cell has any influence on the record.
\<close>

theorem odds_assigned_positionally:
  assumes "2 \<le> length links"
    and "ms = filter (decimal_pattern nd) cells"
    and "ms \<noteq> [] \<longrightarrow> fl (ms ! 0) \<noteq> Finite 1"
  shows "extract_fight nd fl title (FightRow links cells) = Inr (Some
      [(''event'', PStr (case title of Some t \<Rightarrow> t | None \<Rightarrow> ''UFC Event'')),
       (''fighter1'', PStr (links ! 0)),
       (''fighter2'', PStr (links ! 1)),
       (''fighter1_odds'', PFloat (if 1 \<le> length ms then fl (ms ! 0) else Finite 1)),
       (''fighter2_odds'', PFloat (if 2 \<le> length ms then fl (ms ! 1) else Finite 1)),
       (''result'', PStr [])])"
proof -
  have scan: "scan_odds_cells nd fl cells (Finite 1) (Finite 1) =
      (if 1 \<le> length ms then fl (ms ! 0) else Finite 1,
       if 2 \<le> length ms then fl (ms ! 1) else Finite 1)"
  proof (cases ms)
    case Nil
    then show ?thesis using assms(2) by (simp add: scan_none)
  next
    case (Cons a rest)
    then have "fl a \<noteq> Finite 1" using assms(3) by simp
    then show ?thesis using Cons assms(2) scan_first [of nd cells a rest fl]
      by (cases rest) simp_all
  qed
  show ?thesis using assms(1) by (simp add: extract_fight_def scan)
qed

theorem odds_assigned_positionally_witness:
  "2 \<le> length [''Leon Edwards'', ''Belal Muhammad'']
   \<and> [''1.50'', ''2.75'', ''9.0''] = filter (decimal_pattern category_nd) [''n/a'', ''1.50'', ''2.75'', ''9.0'']
   \<and> exact_decimal ([''1.50'', ''2.75'', ''9.0''] ! 0) \<noteq> Finite 1
   \<and> extract_fight category_nd exact_decimal None
         (FightRow [''Leon Edwards'', ''Belal Muhammad''] [''n/a'', ''1.50'', ''2.75'', ''9.0'']) =
       Inr (Some [(''event'', PStr ''UFC Event''), (''fighter1'', PStr ''Leon Edwards''),
                  (''fighter2'', PStr ''Belal Muhammad''),
                  (''fighter1_odds'', PFloat (Finite (3/2))), (''fighter2_odds'', PFloat (Finite (11/4))),
                  (''result'', PStr [])])"
proof -
  have m: "[''1.50'', ''2.75'', ''9.0''] = filter (decimal_pattern category_nd) [''n/a'', ''1.50'', ''2.75'', ''9.0'']"
    by (simp add: decimal_examples decimal_counterexamples)
  have v: "[''1.50'', ''2.75'', ''9.0''] \<noteq> [] \<longrightarrow> exact_decimal ([''1.50'', ''2.75'', ''9.0''] ! 0) \<noteq> Finite 1"
    by (simp add: exact_examples)
  show ?thesis
    using m v odds_assigned_positionally [of "[''Leon Edwards'', ''Belal Muhammad'']" "[''1.50'', ''2.75'', ''9.0'']"
      category_nd "[''n/a'', ''1.50'', ''2.75'', ''9.0'']" exact_decimal None]
    by (simp add: exact_examples)
qed

text \<open>
  When the first matching cell reads \<^verbatim>\<open>1.0\<close>, the assignment of C4 is not positional.
  Of the matching cells \<^verbatim>\<open>1.0\<close>, \<^verbatim>\<open>2.5\<close> the second becomes \<^verbatim>\<open>fighter1_odds\<close> and
  \<^verbatim>\<open>fighter2_odds\<close> stays \<^verbatim>\<open>1.0\<close>; of \<^verbatim>\<open>1.0\<close>, \<^verbatim>\<open>2.5\<close>, \<^verbatim>\<open>3.0\<close> the second becomes
  \<^verbatim>\<open>fighter1_odds\<close> and the third becomes \<^verbatim>\<open>fighter2_odds\<close>.
\<close>

theorem first_match_reads_placeholder_counterexample:
  "filter (decimal_pattern category_nd) [''1.0'', ''2.5''] = [''1.0'', ''2.5'']
   \<and> map exact_decimal [''1.0'', ''2.5''] = [Finite 1, Finite (5/2)]
   \<and> extract_fight category_nd exact_decimal None (FightRow [''A'', ''B''] [''1.0'', ''2.5'']) =
       Inr (Some [(''event'', PStr ''UFC Event''), (''fighter1'', PStr ''A''), (''fighter2'', PStr ''B''),
                  (''fighter1_odds'', PFloat (Finite (5/2))), (''fighter2_odds'', PFloat (Finite 1)),
                  (''result'', PStr [])])
   \<and> filter (decimal_pattern category_nd) [''1.0'', ''2.5'', ''3.0''] = [''1.0'', ''2.5'', ''3.0'']
   \<and> extract_fight category_nd exact_decimal None (FightRow [''A'', ''B''] [''1.0'', ''2.5'', ''3.0'']) =
       Inr (Some [(''event'', PStr ''UFC Event''), (''fighter1'', PStr ''A''), (''fighter2'', PStr ''B''),
                  (''fighter1_odds'', PFloat (Finite (5/2))), (''fighter2_odds'', PFloat (Finite 3)),
                  (''result'', PStr [])])"
  by (simp add: decimal_examples exact_examples extract_fight_def)

text \<open>
  C5. In a run that has events, the rows of the result are, in this order: the rows of
  the frame of the live API; then, for each event that the loop reaches, in the order of
  discovery, the rows of the frame that the page-scrape adapter returned for it, in their
  order, with the locator and the date of the event attached. Every row then gets the
  time stamp.
\<close>

theorem api_rows_then_page_rows_in_event_order:
  assumes "event_links s = Some evs" and "evs \<noteq> []"
  shows "\<exists>s' calls df. scrape_all_event_odds w s = Inr (s', calls) \<and> event_odds s' = Some df
      \<and> rows df = map (AList.update ''timestamp'' (PTime (curr_time s)))
            (api_rows w s @ concat (map (page_rows w) (processed (test s) (enumerate 0 evs))))"
  using final_rows [OF assms, of w] by blast

theorem api_rows_then_page_rows_in_event_order_witness:
  "event_links keyed_scraper = Some sample_events \<and> sample_events \<noteq> []
   \<and> (\<exists>s' calls df. scrape_all_event_odds api_world keyed_scraper = Inr (s', calls)
         \<and> event_odds s' = Some df
         \<and> map (\<lambda>r. (map_of r ''link'', map_of r ''fighter1'')) (rows df) =
             [(Some (PStr ''odds_api_abc''), Some (PStr ''Leon Edwards'')),
              (Some (PStr ''oddsshark_sample_1''), Some (PStr ''Leon Edwards'')),
              (Some (PStr ''oddsshark_sample_1''), Some (PStr ''Tom Aspinall'')),
              (Some (PStr ''oddsshark_sample_1''), Some (PStr ''Cory Sandhagen'')),
              (Some (PStr ''oddsshark_sample_1''), Some (PStr ''Shara Magomedov'')),
              (Some (PStr ''oddsshark_sample_2''), Some (PStr ''Leon Edwards'')),
              (Some (PStr ''oddsshark_sample_2''), Some (PStr ''Tom Aspinall'')),
              (Some (PStr ''oddsshark_sample_2''), Some (PStr ''Cory Sandhagen'')),
              (Some (PStr ''oddsshark_sample_2''), Some (PStr ''Shara Magomedov''))])"
proof -
  have h: "event_links keyed_scraper = Some sample_events" "sample_events \<noteq> []"
    by (simp_all add: keyed_events discovered_events)
  from api_rows_then_page_rows_in_event_order [OF h, of api_world] obtain s' calls df where
    r: "scrape_all_event_odds api_world keyed_scraper = Inr (s', calls)" "event_odds s' = Some df" and
    rows: "rows df = map (AList.update ''timestamp'' (PTime (curr_time keyed_scraper)))
            (api_rows api_world keyed_scraper @
             concat (map (page_rows api_world) (processed (test keyed_scraper) (enumerate 0 sample_events))))"
    by blast
  have p: "processed (test keyed_scraper) (enumerate 0 sample_events) =
      [(0, \<lparr>Date = ''19 Jul 25'', Event = ''UFC 304: Edwards vs Muhammad 2'', url = ''oddsshark_'' @ ''sample_1''\<rparr>),
       (1, \<lparr>Date = ''27 Jul 25'', Event = ''UFC Fight Night: Sandhagen vs Nurmagomedov'', url = ''oddsshark_'' @ ''sample_2''\<rparr>)]"
    by (simp add: processed_def keyed_events sample_events_def)
  have "map (\<lambda>r. (map_of r ''link'', map_of r ''fighter1'')) (rows df) =
        map (\<lambda>r. (map_of r ''link'', map_of r ''fighter1''))
          (api_rows api_world keyed_scraper @
             concat (map (page_rows api_world) (processed (test keyed_scraper) (enumerate 0 sample_events))))"
    unfolding rows by (simp add: update_conv')
  also have "\<dots> =
             [(Some (PStr ''odds_api_abc''), Some (PStr ''Leon Edwards'')),
              (Some (PStr ''oddsshark_sample_1''), Some (PStr ''Leon Edwards'')),
              (Some (PStr ''oddsshark_sample_1''), Some (PStr ''Tom Aspinall'')),
              (Some (PStr ''oddsshark_sample_1''), Some (PStr ''Cory Sandhagen'')),
              (Some (PStr ''oddsshark_sample_1''), Some (PStr ''Shara Magomedov'')),
              (Some (PStr ''oddsshark_sample_2''), Some (PStr ''Leon Edwards'')),
              (Some (PStr ''oddsshark_sample_2''), Some (PStr ''Tom Aspinall'')),
              (Some (PStr ''oddsshark_sample_2''), Some (PStr ''Cory Sandhagen'')),
              (Some (PStr ''oddsshark_sample_2''), Some (PStr ''Shara Magomedov''))]"
    unfolding p by (simp only: list.map concat.simps map_append sample_page_rows keyed_api_rows) simp
  finally show ?thesis using h r by simp
qed

text \<open>
  C6. Let the answer of the API be a list of one event, an object whose \<^verbatim>\<open>bookmakers\<close>
  is a list of one object, whose \<^verbatim>\<open>markets\<close> is a list of one object with the key
  \<^verbatim>\<open>h2h\<close> and with \<^verbatim>\<open>outcomes\<close> a list of two objects; \<^verbatim>\<open>commence_time\<close>, if the event
  has one, is a text. Then the adapter returns a frame of exactly one record:
  \<^verbatim>\<open>fighter1\<close> and \<^verbatim>\<open>fighter1_odds\<close> are the name and the price of the first outcome,
  \<^verbatim>\<open>fighter2\<close> and \<^verbatim>\<open>fighter2_odds\<close> those of the second, with the defaults of the
  source for a field that is absent.
\<close>

theorem one_h2h_market_one_record:
  assumes "fetch_odds_api w k = Inr (PList [PDict ev])"
    and "map_of ev ''bookmakers'' = Some (PList [PDict bk])"
    and "map_of bk ''markets'' = Some (PList [PDict mk])"
    and "map_of mk ''key'' = Some (PStr ''h2h'')"
    and "map_of mk ''outcomes'' = Some (PList [PDict o1, PDict o2])"
    and "map_of ev ''commence_time'' = None \<or> (\<exists>ct. map_of ev ''commence_time'' = Some (PStr ct))"
  shows "scrape_from_odds_api w k = Inr (Some (DataFrame
     [ [(''link'', PStr (''odds_api_'' @ format_val w (case map_of ev ''id'' of None \<Rightarrow> PStr [] | Some v \<Rightarrow> v))),
       (''date'', case map_of ev ''commence_time'' of
                    Some (PStr ct) \<Rightarrow> PStr (concat (take 10 (chars ct))) | _ \<Rightarrow> PStr []),
       (''event'', case map_of ev ''sport_title'' of None \<Rightarrow> PStr ''UFC Event'' | Some v \<Rightarrow> v),
       (''fighter1'', case map_of o1 ''name'' of None \<Rightarrow> PStr [] | Some v \<Rightarrow> v),
       (''fighter2'', case map_of o2 ''name'' of None \<Rightarrow> PStr [] | Some v \<Rightarrow> v),
       (''fighter1_odds'', case map_of o1 ''price'' of None \<Rightarrow> PFloat (Finite 1) | Some v \<Rightarrow> v),
       (''fighter2_odds'', case map_of o2 ''price'' of None \<Rightarrow> PFloat (Finite 1) | Some v \<Rightarrow> v),
       (''result'', PStr [])] ]))"
proof -
  define ct where "ct = (case map_of ev ''commence_time'' of None \<Rightarrow> PStr [] | Some v \<Rightarrow> v)"
  define date where "date = (case map_of ev ''commence_time'' of
                    Some (PStr c) \<Rightarrow> PStr (concat (take 10 (chars c))) | _ \<Rightarrow> PStr [])"
  have d: "(if truthy ct then py_slice_to 10 ct else Inr (PStr [])) = Inr date"
    using assms(6) by (auto simp: ct_def date_def)
  define name where "name = (case map_of ev ''sport_title'' of None \<Rightarrow> PStr ''UFC Event'' | Some v \<Rightarrow> v)"
  have fight: "api_fight w (PDict ev) name ct (PList [PDict o1, PDict o2]) = Inr
     [(''link'', PStr (''odds_api_'' @ format_val w (case map_of ev ''id'' of None \<Rightarrow> PStr [] | Some v \<Rightarrow> v))),
       (''date'', date),
       (''event'', name),
       (''fighter1'', case map_of o1 ''name'' of None \<Rightarrow> PStr [] | Some v \<Rightarrow> v),
       (''fighter2'', case map_of o2 ''name'' of None \<Rightarrow> PStr [] | Some v \<Rightarrow> v),
       (''fighter1_odds'', case map_of o1 ''price'' of None \<Rightarrow> PFloat (Finite 1) | Some v \<Rightarrow> v),
       (''fighter2_odds'', case map_of o2 ''price'' of None \<Rightarrow> PFloat (Finite 1) | Some v \<Rightarrow> v),
       (''result'', PStr [])]"
    by (simp add: api_fight_def bind_exn_def d)
  have markets: "api_markets w (PDict ev) name ct [PDict mk] [] =
      bind_exn (api_fight w (PDict ev) name ct (PList [PDict o1, PDict o2])) (\<lambda>fight. Inr [fight])"
    using assms(4,5) by (simp add: bind_exn_def)
  have events: "api_events w [PDict ev] [] =
      api_markets w (PDict ev) name ct [PDict mk] []"
    using assms(2,3) by (simp add: bind_exn_def name_def ct_def split: sum.split)
  have "api_events w [PDict ev] [] = Inr
     [ [(''link'', PStr (''odds_api_'' @ format_val w (case map_of ev ''id'' of None \<Rightarrow> PStr [] | Some v \<Rightarrow> v))),
       (''date'', date),
       (''event'', name),
       (''fighter1'', case map_of o1 ''name'' of None \<Rightarrow> PStr [] | Some v \<Rightarrow> v),
       (''fighter2'', case map_of o2 ''name'' of None \<Rightarrow> PStr [] | Some v \<Rightarrow> v),
       (''fighter1_odds'', case map_of o1 ''price'' of None \<Rightarrow> PFloat (Finite 1) | Some v \<Rightarrow> v),
       (''fighter2_odds'', case map_of o2 ''price'' of None \<Rightarrow> PFloat (Finite 1) | Some v \<Rightarrow> v),
       (''result'', PStr [])] ]"
    by (simp only: events markets fight bind_exn_def sum.case)
  then show ?thesis
    using assms(1)
    by (simp add: scrape_from_odds_api_def bind_exn_def date_def name_def del: api_events.simps)
qed

theorem one_h2h_market_one_record_witness:
  "fetch_odds_api api_world ''key'' = Inr h2h_payload
   \<and> scrape_from_odds_api api_world ''key'' = Inr (Some (DataFrame
     [ [(''link'', PStr ''odds_api_abc''), (''date'', PStr ''2025-07-19''), (''event'', PStr ''MMA''),
       (''fighter1'', PStr ''Leon Edwards''), (''fighter2'', PStr ''Belal Muhammad''),
       (''fighter1_odds'', PFloat (Finite (37/20))), (''fighter2_odds'', PFloat (Finite (39/20))),
       (''result'', PStr [])] ]))"
  using one_h2h_market_one_record [of api_world "''key''"
      "[(''id'', PStr ''abc''), (''sport_title'', PStr ''MMA''), (''commence_time'', PStr ''2025-07-19T22:00:00Z''),
        (''bookmakers'', PList [PDict
         [(''key'', PStr ''book''), (''markets'', PList [PDict
            [(''key'', PStr ''h2h''), (''outcomes'', PList
               [PDict [(''name'', PStr ''Leon Edwards''), (''price'', PFloat (Finite (37/20)))],
                PDict [(''name'', PStr ''Belal Muhammad''), (''price'', PFloat (Finite (39/20)))] ])] ])] ])]"
      "[(''key'', PStr ''book''), (''markets'', PList [PDict
            [(''key'', PStr ''h2h''), (''outcomes'', PList
               [PDict [(''name'', PStr ''Leon Edwards''), (''price'', PFloat (Finite (37/20)))],
                PDict [(''name'', PStr ''Belal Muhammad''), (''price'', PFloat (Finite (39/20)))] ])] ])]"
      "[(''key'', PStr ''h2h''), (''outcomes'', PList
               [PDict [(''name'', PStr ''Leon Edwards''), (''price'', PFloat (Finite (37/20)))],
                PDict [(''name'', PStr ''Belal Muhammad''), (''price'', PFloat (Finite (39/20)))] ])]"
      "[(''name'', PStr ''Leon Edwards''), (''price'', PFloat (Finite (37/20)))]"
      "[(''name'', PStr ''Belal Muhammad''), (''price'', PFloat (Finite (39/20)))]"]
  by (simp add: api_world_def offline_world_def h2h_payload_def format_val_def continuation_def)

text \<open>
  C7. In test mode the aggregator returns, and the calls of the page-scrape adapter it
  has made are exactly those for the events at the positions 0 and 1, in this order (for
  fewer than two events, those there are): no event from position 2 on is scraped.
\<close>

theorem test_mode_scrapes_first_two:
  assumes "test s"
  shows "\<exists>s'. scrape_all_event_odds w s =
           Inr (s', case event_links s of None \<Rightarrow> [] | Some evs \<Rightarrow> take 2 (enumerate 0 (map url evs)))"
proof (cases "event_links s")
  case None
  then show ?thesis by (simp add: scrape_all_early)
next
  case (Some evs)
  show ?thesis
  proof (cases "evs = []")
    case True
    then show ?thesis using Some by (simp add: scrape_all_early)
  next
    case False
    have "map (\<lambda>ie. (fst ie, url (snd ie))) (processed (test s) (enumerate 0 evs)) =
          take 2 (enumerate 0 (map url evs))"
      using assms by (simp add: processed_enumerate take_map [symmetric] enumerate_map_snd)
    then show ?thesis using scrape_all_eq [OF Some False, of w] Some by simp
  qed
qed

theorem test_mode_scrapes_first_two_witness:
  "test test_scraper
   \<and> (\<exists>s'. scrape_all_event_odds offline_world test_scraper =
         Inr (s', [(0, ''oddsshark_0''), (1, ''oddsshark_1'')]))"
proof -
  have h: "test test_scraper" by (simp add: test_scraper_def OddsScraperAlt_def)
  show ?thesis
    using h test_mode_scrapes_first_two [OF h, of offline_world]
    by (simp add: test_scraper_def OddsScraperAlt_def three_events_def numeral_2_eq_2)
qed

text \<open>
  C8. The constructor stores the time of construction in \<open>curr_time\<close>, and event
  discovery does not change it. In a run that has events the aggregator does not change
  it either, and every row of the result carries that one time as its \<^verbatim>\<open>timestamp\<close>.
\<close>

theorem one_timestamp_per_run:
  "curr_time (OddsScraperAlt now t k) = now
   \<and> (\<forall>s1. get_individual_event_urls w s = Inr s1 \<longrightarrow> curr_time s1 = curr_time s)
   \<and> (\<forall>evs. event_links s = Some evs \<and> evs \<noteq> [] \<longrightarrow>
        (\<exists>s' calls df. scrape_all_event_odds w s = Inr (s', calls) \<and> event_odds s' = Some df
           \<and> curr_time s' = curr_time s
           \<and> (\<forall>r \<in> set (rows df). map_of r ''timestamp'' = Some (PTime (curr_time s)))))"
proof -
  have a: "curr_time (OddsScraperAlt now t k) = now" by (simp add: OddsScraperAlt_def)
  have b: "\<forall>s1. get_individual_event_urls w s = Inr s1 \<longrightarrow> curr_time s1 = curr_time s"
    by (auto simp: get_individual_event_urls_def Let_def)
  have c: "\<exists>s' calls df. scrape_all_event_odds w s = Inr (s', calls) \<and> event_odds s' = Some df
           \<and> curr_time s' = curr_time s
           \<and> (\<forall>r \<in> set (rows df). map_of r ''timestamp'' = Some (PTime (curr_time s)))"
    if "event_links s = Some evs" "evs \<noteq> []" for evs
  proof -
    from final_rows [OF that, of w] obtain s' df where
      r: "scrape_all_event_odds w s =
             Inr (s', map (\<lambda>ie. (fst ie, url (snd ie))) (processed (test s) (enumerate 0 evs)))"
        "event_odds s' = Some df" "curr_time s' = curr_time s"
        "rows df = map (AList.update ''timestamp'' (PTime (curr_time s)))
            (api_rows w s @ concat (map (page_rows w) (processed (test s) (enumerate 0 evs))))"
      by blast
    have "\<forall>r \<in> set (rows df). map_of r ''timestamp'' = Some (PTime (curr_time s))"
      unfolding r(4) by (auto simp: map_of_update_same)
    then show ?thesis using r by blast
  qed
  show ?thesis using a b c by blast
qed

theorem one_timestamp_per_run_witness:
  "curr_time (OddsScraperAlt 5 False None) = 5
   \<and> (\<exists>s1 s' calls df. get_individual_event_urls offline_world (OddsScraperAlt 5 False None) = Inr s1
         \<and> curr_time s1 = 5
         \<and> scrape_all_event_odds offline_world s1 = Inr (s', calls) \<and> event_odds s' = Some df
         \<and> map (\<lambda>r. map_of r ''timestamp'') (rows df) = replicate 8 (Some (PTime 5)))"
proof -
  define s1 where "s1 = (OddsScraperAlt 5 False None)\<lparr>event_links := Some sample_events\<rparr>"
  have g: "get_individual_event_urls offline_world (OddsScraperAlt 5 False None) = Inr s1"
    by (simp add: get_individual_event_urls_def get_events_from_oddsshark_def bind_exn_def
        offline_world_def s1_def)
  have ev: "event_links s1 = Some sample_events" "sample_events \<noteq> []"
    by (simp_all add: s1_def discovered_events)
  have t: "curr_time s1 = 5" "test s1 = False" "odds_api_key s1 = None"
    by (simp_all add: s1_def OddsScraperAlt_def)
  note ctor = one_timestamp_per_run [of 5 False None offline_world "OddsScraperAlt 5 False None"]
  note run = one_timestamp_per_run [of 5 False None offline_world s1]
  from run ev obtain s' calls df where
    r: "scrape_all_event_odds offline_world s1 = Inr (s', calls)" "event_odds s' = Some df" and
    all: "\<forall>r \<in> set (rows df). map_of r ''timestamp'' = Some (PTime (curr_time s1))"
    by blast
  from final_rows [OF ev, of offline_world] r have
    "rows df = map (AList.update ''timestamp'' (PTime (curr_time s1)))
            (api_rows offline_world s1 @
             concat (map (page_rows offline_world) (processed (test s1) (enumerate 0 sample_events))))"
    by auto
  then have "length (rows df) =
      length (concat (map (\<lambda>ie. map (\<lambda>r. (map_of r ''link'', map_of r ''fighter1'')) (page_rows offline_world ie))
        [(0, \<lparr>Date = ''19 Jul 25'', Event = ''UFC 304: Edwards vs Muhammad 2'', url = ''oddsshark_'' @ ''sample_1''\<rparr>),
         (1, \<lparr>Date = ''27 Jul 25'', Event = ''UFC Fight Night: Sandhagen vs Nurmagomedov'', url = ''oddsshark_'' @ ''sample_2''\<rparr>)]))"
    by (simp add: api_rows_def api_frame_without_key t processed_def sample_events_def)
  also have "\<dots> = 8" by (simp only: list.map concat.simps sample_page_rows) simp
  finally have len: "length (rows df) = 8" .
  have "map (\<lambda>r. map_of r ''timestamp'') (rows df) = replicate 8 (Some (PTime 5))"
    using map_const [OF all] len t by simp
  then show ?thesis using ctor g t r by simp
qed



text \<open>
  C10. When \<^verbatim>\<open>write_data\<close> is called while \<^verbatim>\<open>event_odds\<close> is \<^verbatim>\<open>None\<close>, nothing is
  written: the call returns normally and the file system is the one it was given.
\<close>

theorem write_data_without_result:
  "event_odds s = None \<Longrightarrow> write_data to_csv s fs = Inr fs"
  by (simp add: write_data_def)

theorem write_data_without_result_witness:
  "event_odds fresh_scraper = None
   \<and> write_data (\<lambda>df. []) fresh_scraper empty_disk = Inr empty_disk"
proof -
  have h: "event_odds fresh_scraper = None"
    by (simp add: fresh_scraper_def OddsScraperAlt_def)
  show ?thesis using h write_data_without_result [OF h, of "\<lambda>df. []" empty_disk] by simp
qed

end
